theory Spec2Isabelle
  imports Complex_Main "HOL-Library.Word"
begin

section \<open>Numbers, typed arrays and the browser\<close>

text \<open>
  The low-poly generator of \<^verbatim>\<open>src/services/lowpoly.ts\<close> computes with JavaScript numbers.
  They are embedded as real numbers, and the places where the source reaches \<^verbatim>\<open>NaN\<close>, an
  infinity or \<^verbatim>\<open>undefined\<close> are written out as branches of their own. The rounding of the
  double format is written out, with the operations \<open>fadd\<close>, \<open>fsub\<close>, \<open>fmul\<close> and \<open>fdiv\<close>
  below, in two computations: the scaled dimension of the image normaliser, which is
  rounded to an integer, and the barycentric weights of the colour average, whose signs
  decide the pixels of a triangle. Every other arithmetic operation of the source is the
  exact operation on \<^typ>\<open>real\<close>. Array lengths, loop counters and identifiers are integers.
  Elements of a \<^verbatim>\<open>Uint8ClampedArray\<close> are bytes, \<^typ>\<open>8 word\<close>.
\<close>

type_synonym point = "real \<times> real"

type_synonym byte = "8 word"

text \<open>\<^verbatim>\<open>Math.round\<close>: the nearest integer, a tie going up.\<close>

definition Math_round :: "real \<Rightarrow> int" where
  "Math_round x = \<lfloor>x + 1 / 2\<rfloor>"

text \<open>
  The double format (IEEE 754 binary64, rounding to nearest, a tie going to the even
  significand). A number \<open>x\<close> other than 0 lies in one binade, \<open>2 ^ e \<le> \<bar>x\<bar> < 2 ^ (e + 1)\<close>,
  in which the numbers of the format are the multiples of \<open>ulp x = 2 ^ (e - 52)\<close>. The
  exponent \<open>e\<close> is \<open>binade_up \<bar>x\<bar>\<close> for \<open>1 \<le> \<bar>x\<bar>\<close> and \<open>- binade_down \<bar>x\<bar>\<close> below 1. The range of
  the exponent is not limited: the quotients and products of pixel coordinates and image
  dimensions that are rounded here are far from the overflow and the underflow of the
  format.
\<close>

definition round_even :: "real \<Rightarrow> int" where
  "round_even x = (let f = \<lfloor>x\<rfloor> in
     if x - of_int f < 1 / 2 then f
     else if 1 / 2 < x - of_int f then f + 1
     else if even f then f else f + 1)"

function binade_up :: "real \<Rightarrow> nat" where
  "binade_up x = (if x < 2 then 0 else 1 + binade_up (x / 2))"
  by pat_completeness auto
termination
proof (relation "measure (\<lambda>x. nat \<lceil>x\<rceil>)")
  show "wf (measure (\<lambda>x. nat \<lceil>x\<rceil>))" by simp
next
  fix x :: real
  assume "\<not> x < 2"
  then have "x / 2 \<le> x - 1" by simp
  then have "\<lceil>x / 2\<rceil> \<le> \<lceil>x - 1\<rceil>" by (rule ceiling_mono)
  moreover have "2 \<le> \<lceil>x\<rceil>" using \<open>\<not> x < 2\<close> by (simp add: le_ceiling_iff)
  ultimately show "(x / 2, x) \<in> measure (\<lambda>x. nat \<lceil>x\<rceil>)" by simp
qed

function binade_down :: "real \<Rightarrow> nat" where
  "binade_down x = (if 1 \<le> x \<or> x \<le> 0 then 0 else 1 + binade_down (2 * x))"
  by pat_completeness auto
termination
proof (relation "measure (\<lambda>x. nat \<lceil>1 / x\<rceil>)")
  show "wf (measure (\<lambda>x. nat \<lceil>1 / x\<rceil>))" by simp
next
  fix x :: real
  assume "\<not> (1 \<le> x \<or> x \<le> 0)"
  then have x: "0 < x" "x < 1" by simp_all
  then have y: "1 < 1 / x" by simp
  have "\<lceil>1 / (2 * x)\<rceil> < \<lceil>1 / x\<rceil>"
  proof (cases "2 \<le> 1 / x")
    case True
    then have "1 / (2 * x) \<le> 1 / x - 1" by (simp add: field_simps)
    then have "\<lceil>1 / (2 * x)\<rceil> \<le> \<lceil>1 / x - 1\<rceil>" by (rule ceiling_mono)
    then show ?thesis by simp
  next
    case False
    then have "1 / (2 * x) \<le> 1" using x by (simp add: field_simps)
    then have "\<lceil>1 / (2 * x)\<rceil> \<le> 1" by (simp add: ceiling_le_iff)
    moreover have "2 \<le> \<lceil>1 / x\<rceil>" using y by (simp add: le_ceiling_iff)
    ultimately show ?thesis by linarith
  qed
  moreover have "0 < \<lceil>1 / x\<rceil>" using y by linarith
  ultimately show "(2 * x, x) \<in> measure (\<lambda>x. nat \<lceil>1 / x\<rceil>)" by simp
qed

declare binade_up.simps [simp del]

declare binade_down.simps [simp del]

definition ulp :: "real \<Rightarrow> real" where
  "ulp x = (if 1 \<le> \<bar>x\<bar> then 2 ^ binade_up \<bar>x\<bar> / 2 ^ 52 else 1 / (2 ^ binade_down \<bar>x\<bar> * 2 ^ 52))"

text \<open>The number of the double format nearest to \<open>x\<close>.\<close>

definition fl :: "real \<Rightarrow> real" where
  "fl x = (if x = 0 then 0 else of_int (round_even (x / ulp x)) * ulp x)"

text \<open>The operations \<^verbatim>\<open>+\<close>, \<^verbatim>\<open>-\<close>, \<^verbatim>\<open>*\<close> and \<^verbatim>\<open>/\<close> on doubles: the exact result, rounded.\<close>

definition fadd :: "real \<Rightarrow> real \<Rightarrow> real" where
  "fadd a b = fl (a + b)"

definition fsub :: "real \<Rightarrow> real \<Rightarrow> real" where
  "fsub a b = fl (a - b)"

definition fmul :: "real \<Rightarrow> real \<Rightarrow> real" where
  "fmul a b = fl (a * b)"

definition fdiv :: "real \<Rightarrow> real \<Rightarrow> real" where
  "fdiv a b = fl (a / b)"

text \<open>
  A store into a \<^verbatim>\<open>Uint8ClampedArray\<close>: the number is clamped to the range from 0 to 255 and
  rounded to the nearest integer, a tie going to the even one.
\<close>

definition toUint8Clamp :: "real \<Rightarrow> byte" where
  "toUint8Clamp x =
     (if x \<le> 0 then 0
      else if 255 \<le> x then 255
      else let f = \<lfloor>x\<rfloor> in
        if x - of_int f < 1 / 2 then of_int f
        else if 1 / 2 < x - of_int f then of_int (f + 1)
        else if even f then of_int f else of_int (f + 1))"

text \<open>A read from an array: \<^verbatim>\<open>undefined\<close> (here \<open>None\<close>) outside the array.\<close>

definition rd :: "'a list \<Rightarrow> int \<Rightarrow> 'a option" where
  "rd xs i = (if 0 \<le> i \<and> i < int (length xs) then Some (xs ! nat i) else None)"

datatype error =
    CanvasContextError   \<comment> \<open>\<^verbatim>\<open>new Error('Could not get canvas context')\<close>\<close>
  | IndexSizeError       \<comment> \<open>the exception of \<^verbatim>\<open>getImageData\<close> for an empty rectangle\<close>
  | TriangulationError   \<comment> \<open>an exception thrown by the triangulation library\<close>
  | TypeError            \<comment> \<open>a property read from \<^verbatim>\<open>undefined\<close>\<close>
  | InvalidInput         \<comment> \<open>named by the specification; no statement of the source raises it\<close>

record HTMLImageElement =
  image_width :: nat
  image_height :: nat

record ImageData =
  id_width :: nat
  id_height :: nat
  id_data :: "byte list"

text \<open>
  The browser is outside the repository. Its part in \<^verbatim>\<open>getScaledImageData\<close> is taken as a
  parameter: whether \<^verbatim>\<open>canvas.getContext('2d')\<close> yields a context, and the bytes that
  \<^verbatim>\<open>drawImage\<close> followed by \<^verbatim>\<open>getImageData\<close> deliver for the image at a given size. The one
  rule of the canvas that is written into the model is that \<^verbatim>\<open>getImageData\<close> throws an
  \<^verbatim>\<open>IndexSizeError\<close> when the requested width or height is zero.
\<close>

record canvas =
  canvas_getContext :: bool
  canvas_pixels :: "HTMLImageElement \<Rightarrow> nat \<Rightarrow> nat \<Rightarrow> byte list"

definition getImageData :: "canvas \<Rightarrow> HTMLImageElement \<Rightarrow> nat \<Rightarrow> nat \<Rightarrow> error + ImageData" where
  "getImageData cv img sw sh =
     (if sw = 0 \<or> sh = 0 then Inl IndexSizeError
      else Inr \<lparr>id_width = sw, id_height = sh, id_data = canvas_pixels cv img sw sh\<rparr>)"

section \<open>Image normaliser\<close>

record scaled =
  sc_width :: nat
  sc_height :: nat
  sc_imageData :: ImageData

text \<open>
  The numbers \<^verbatim>\<open>width\<close> and \<^verbatim>\<open>height\<close> computed by lines 121 to 130 of the source, for the
  dimensions of the image and a number \<open>maxSize\<close>. The bound is copied as it is, the other
  dimension is \<^verbatim>\<open>Math.round\<close> of the product of doubles. The result is \<open>None\<close> when the
  width is \<^verbatim>\<open>NaN\<close>: for a negative bound and an image of height 0 the source multiplies 0
  with the infinite quotient \<^verbatim>\<open>maxSize / 0\<close>.
\<close>

definition scaledSize :: "nat \<Rightarrow> nat \<Rightarrow> real \<Rightarrow> (real \<times> real) option" where
  "scaledSize width height maxSize =
     (if real width > maxSize \<or> real height > maxSize then
        (if width > height
         then Some (maxSize, of_int (Math_round (fmul (real height) (fdiv maxSize (real width)))))
         else if height = 0 then None
         else Some (of_int (Math_round (fmul (real width) (fdiv maxSize (real height)))), maxSize))
      else Some (real width, real height))"

text \<open>
  The bound \<^verbatim>\<open>settings.maxSize\<close> is a natural number, the value of the size slider. Both
  numbers of \<open>scaledSize\<close> are then natural numbers (lemma \<open>scaledSize_nat\<close> below) and are
  passed on as such; the case \<open>None\<close>, in which \<^verbatim>\<open>getImageData\<close> is called with \<^verbatim>\<open>NaN\<close>, does
  not arise.
\<close>

definition getScaledImageData :: "canvas \<Rightarrow> HTMLImageElement \<Rightarrow> nat \<Rightarrow> error + scaled" where
  "getScaledImageData cv img maxSize =
     (if \<not> canvas_getContext cv then Inl CanvasContextError
      else
        case scaledSize (image_width img) (image_height img) (real maxSize) of
          None \<Rightarrow> Inl TypeError
        | Some (width, height) \<Rightarrow>
            (case getImageData cv img (nat \<lfloor>width\<rfloor>) (nat \<lfloor>height\<rfloor>) of
               Inl e \<Rightarrow> Inl e
             | Inr d \<Rightarrow> Inr \<lparr>sc_width = nat \<lfloor>width\<rfloor>, sc_height = nat \<lfloor>height\<rfloor>, sc_imageData = d\<rparr>))"

text \<open>A canvas that delivers an all-zero buffer of the requested size.\<close>

definition blank_canvas :: canvas where
  "blank_canvas = \<lparr>canvas_getContext = True,
     canvas_pixels = (\<lambda>img w h. replicate (4 * w * h) 0)\<rparr>"

section \<open>Border augmenter\<close>

text \<open>The four points that one round of the loop of \<^verbatim>\<open>addBorderPoints\<close> pushes.\<close>

definition borderStep :: "int \<Rightarrow> int \<Rightarrow> real \<Rightarrow> real \<Rightarrow> point list" where
  "borderStep i numBorderPoints width height =
     [(of_int i / of_int numBorderPoints * width, 0),
      (of_int i / of_int numBorderPoints * width, height),
      (0, of_int i / of_int numBorderPoints * height),
      (width, of_int i / of_int numBorderPoints * height)]"

function addBorderPoints_loop :: "int \<Rightarrow> int \<Rightarrow> real \<Rightarrow> real \<Rightarrow> point list \<Rightarrow> point list" where
  "addBorderPoints_loop i numBorderPoints width height points =
     (if i < numBorderPoints
      then addBorderPoints_loop (i + 1) numBorderPoints width height
             (points @ borderStep i numBorderPoints width height)
      else points)"
  by pat_completeness auto
termination
  by (relation "measure (\<lambda>(i, n, w, h, ps). nat (n - i))") auto

declare addBorderPoints_loop.simps [simp del]

text \<open>
  The corners are pushed first, and \<^verbatim>\<open>numBorderPoints\<close> is computed from the length of the
  array after that push.
\<close>

definition addBorderPoints :: "point list \<Rightarrow> real \<Rightarrow> real \<Rightarrow> point list" where
  "addBorderPoints points width height =
     (let points1 = points @ [(0, 0), (width, 0), (0, height), (width, height)];
          numBorderPoints = \<lceil>sqrt (real (length points1)) / 2\<rceil>
      in addBorderPoints_loop 1 numBorderPoints width height points1)"

section \<open>Seeded random source\<close>

text \<open>
  A random source is a function that is called for the next number, as \<^verbatim>\<open>Math.random\<close> is:
  the numbers it yields are at least 0 and less than 1. The type \<open>unit_real\<close> holds such
  numbers; a source is a step function on a state of its own type.
\<close>

typedef unit_real = "{x::real. 0 \<le> x \<and> x < 1}"
  by (rule exI[of _ 0]) simp

type_synonym 'g random = "'g \<Rightarrow> unit_real \<times> 'g"

definition to_unit :: "real \<Rightarrow> unit_real" where
  "to_unit x = Abs_unit_real x"

definition val :: "unit_real \<Rightarrow> real" where
  "val u = Rep_unit_real u"

text \<open>
  \<^verbatim>\<open>createPRNG(seed)\<close> returns a closure over the variable \<open>s\<close>, which starts as the seed.
  One call of the closure from the state \<open>s\<close>:
\<close>

definition createPRNG :: "real random" where
  "createPRNG s = (let s' = sin s * 10000 in (to_unit (s' - of_int \<lfloor>s'\<rfloor>), s'))"

section \<open>Edge-aware sampler\<close>

function sampleEdgeAware_loop ::
  "'g random \<Rightarrow> nat \<Rightarrow> nat \<Rightarrow> int \<Rightarrow> byte list \<Rightarrow> real \<Rightarrow> 'g \<Rightarrow> point list \<Rightarrow> int \<Rightarrow> point list" where
  "sampleEdgeAware_loop random width height numPoints edgeMap edgeWeight g points attempts =
     (if int (length points) < numPoints \<and> attempts < numPoints * 10 then
        let (u1, g1) = random g;
            x = \<lfloor>val u1 * real width\<rfloor>;
            (u2, g2) = random g1;
            y = \<lfloor>val u2 * real height\<rfloor>;
            (u3, g3) = random g2;
            accept = (case rd edgeMap (y * int width + x) of
                        None \<Rightarrow> False
                      | Some e \<Rightarrow>
                          val u3 < (1 - edgeWeight) + edgeWeight * (real (unat e) / 255))
        in sampleEdgeAware_loop random width height numPoints edgeMap edgeWeight g3
             (if accept then points @ [(of_int x, of_int y)] else points) (attempts + 1)
      else points)"
  by pat_completeness auto
termination
  by (relation "measure (\<lambda>(random, width, height, numPoints, edgeMap, edgeWeight, g, points, attempts).
        nat (numPoints * 10 - attempts))") (auto split: prod.splits)

declare sampleEdgeAware_loop.simps [simp del]

definition sampleEdgeAware ::
  "'g random \<Rightarrow> 'g \<Rightarrow> nat \<Rightarrow> nat \<Rightarrow> int \<Rightarrow> byte list \<Rightarrow> real \<Rightarrow> point list" where
  "sampleEdgeAware random g width height numPoints edgeMap edgeWeight =
     sampleEdgeAware_loop random width height numPoints edgeMap edgeWeight g [] 0"

text \<open>A point with integer coordinates strictly inside the right and bottom border.\<close>

definition pixel_point :: "nat \<Rightarrow> nat \<Rightarrow> point \<Rightarrow> bool" where
  "pixel_point width height p \<longleftrightarrow>
     (\<exists>x y :: int. p = (of_int x, of_int y) \<and> 0 \<le> x \<and> x \<le> int width - 1 \<and> 0 \<le> y \<and> y \<le> int height - 1)"

text \<open>A source that yields one half at every call.\<close>

definition half_source :: "unit random" where
  "half_source g = (to_unit (1 / 2), g)"

section \<open>Edge detector\<close>

text \<open>
  A number that may be \<^verbatim>\<open>NaN\<close> is an option, \<open>None\<close> for \<^verbatim>\<open>NaN\<close>. A store of \<^verbatim>\<open>NaN\<close> into a
  \<^verbatim>\<open>Uint8ClampedArray\<close> stores 0, and a store outside the array is ignored.
\<close>

definition store :: "byte list \<Rightarrow> int \<Rightarrow> real option \<Rightarrow> byte list" where
  "store xs i v =
     (if 0 \<le> i \<and> i < int (length xs)
      then xs[nat i := (case v of None \<Rightarrow> 0 | Some x \<Rightarrow> toUint8Clamp x)]
      else xs)"

definition luminance :: "byte list \<Rightarrow> int \<Rightarrow> real option" where
  "luminance data i =
     (case (rd data i, rd data (i + 1), rd data (i + 2)) of
        (Some r, Some g, Some b) \<Rightarrow>
          Some (0.299 * real (unat r) + 0.587 * real (unat g) + 0.114 * real (unat b))
      | _ \<Rightarrow> None)"

function grayscale_loop :: "byte list \<Rightarrow> int \<Rightarrow> byte list \<Rightarrow> byte list" where
  "grayscale_loop data i grayscale =
     (if i < int (length data)
      then grayscale_loop data (i + 4) (store grayscale (i div 4) (luminance data i))
      else grayscale)"
  by pat_completeness auto
termination
  by (relation "measure (\<lambda>(data, i, grayscale). nat (int (length data) - i))") auto

declare grayscale_loop.simps [simp del]

definition sobelX :: "int list" where
  "sobelX = [-1, 0, 1, -2, 0, 2, -1, 0, 1]"

definition sobelY :: "int list" where
  "sobelY = [-1, -2, -1, 0, 0, 0, 1, 2, 1]"

text \<open>One round of the two kernel loops: the sums \<open>gx\<close> and \<open>gy\<close> after the cell \<open>(ky, kx)\<close>.\<close>

definition kernel_step :: "byte list \<Rightarrow> nat \<Rightarrow> int \<Rightarrow> int \<Rightarrow> (int \<times> int) option \<Rightarrow> int \<times> int \<Rightarrow> (int \<times> int) option" where
  "kernel_step grayscale width x y acc k =
     (let (ky, kx) = k;
          idx = (y + ky) * int width + (x + kx);
          weightX = sobelX ! nat ((ky + 1) * 3 + (kx + 1));
          weightY = sobelY ! nat ((ky + 1) * 3 + (kx + 1))
      in case (acc, rd grayscale idx) of
           (Some (gx, gy), Some v) \<Rightarrow> Some (gx + int (unat v) * weightX, gy + int (unat v) * weightY)
         | _ \<Rightarrow> None)"

definition kernel_cells :: "(int \<times> int) list" where
  "kernel_cells = [(-1, -1), (-1, 0), (-1, 1), (0, -1), (0, 0), (0, 1), (1, -1), (1, 0), (1, 1)]"

definition gradient :: "byte list \<Rightarrow> nat \<Rightarrow> int \<Rightarrow> int \<Rightarrow> (int \<times> int) option" where
  "gradient grayscale width x y =
     foldl (kernel_step grayscale width x y) (Some (0, 0)) kernel_cells"

definition magnitude :: "(int \<times> int) option \<Rightarrow> real option" where
  "magnitude g = (case g of None \<Rightarrow> None | Some (gx, gy) \<Rightarrow> Some (sqrt (real_of_int (gx * gx + gy * gy))))"

function sobel_x_loop :: "byte list \<Rightarrow> nat \<Rightarrow> int \<Rightarrow> int \<Rightarrow> byte list \<times> real \<Rightarrow> byte list \<times> real" where
  "sobel_x_loop grayscale width y x st =
     (if x < int width - 1 then
        let (edgeMap, maxGradient) = st;
            m = magnitude (gradient grayscale width x y);
            edgeMap' = store edgeMap (y * int width + x) m;
            maxGradient' = (case m of Some v \<Rightarrow> if v > maxGradient then v else maxGradient
                                    | None \<Rightarrow> maxGradient)
        in sobel_x_loop grayscale width y (x + 1) (edgeMap', maxGradient')
      else st)"
  by pat_completeness auto
termination
  by (relation "measure (\<lambda>(grayscale, width, y, x, st). nat (int width - 1 - x))") auto

function sobel_y_loop :: "byte list \<Rightarrow> nat \<Rightarrow> nat \<Rightarrow> int \<Rightarrow> byte list \<times> real \<Rightarrow> byte list \<times> real" where
  "sobel_y_loop grayscale width height y st =
     (if y < int height - 1
      then sobel_y_loop grayscale width height (y + 1) (sobel_x_loop grayscale width y 1 st)
      else st)"
  by pat_completeness auto
termination
  by (relation "measure (\<lambda>(grayscale, width, height, y, st). nat (int height - 1 - y))") auto

declare sobel_x_loop.simps [simp del] sobel_y_loop.simps [simp del]

definition createEdgeMap :: "ImageData \<Rightarrow> byte list" where
  "createEdgeMap imageData =
     (let width = id_width imageData; height = id_height imageData; data = id_data imageData;
          grayscale = grayscale_loop data 0 (replicate (width * height) 0);
          (edgeMap, maxGradient) =
             sobel_y_loop grayscale width height 1 (replicate (width * height) 0, 0)
      in if maxGradient > 0
         then map (\<lambda>e. toUint8Clamp (real (unat e) / maxGradient * 255)) edgeMap
         else edgeMap)"

text \<open>
  An image of 3 by 3 pixels: the left and the middle column black, the right column white.
\<close>

definition black :: "byte list" where
  "black = [0, 0, 0, 255]"

definition white :: "byte list" where
  "white = [255, 255, 255, 255]"

definition step_image :: ImageData where
  "step_image = \<lparr>id_width = 3, id_height = 3,
     id_data = black @ black @ white @ black @ black @ white @ black @ black @ white\<rparr>"

section \<open>Geometry and colour\<close>

type_synonym vertices = "point \<times> point \<times> point"

definition getCentroid :: "vertices \<Rightarrow> point" where
  "getCentroid vs = (case vs of (a, b, c) \<Rightarrow>
     ((fst a + fst b + fst c) / 3, (snd a + snd b + snd c) / 3))"

definition getArea :: "vertices \<Rightarrow> real" where
  "getArea vs = (case vs of (a, b, c) \<Rightarrow>
     \<bar>(fst a * (snd b - snd c) + fst b * (snd c - snd a) + fst c * (snd a - snd b)) / 2\<bar>)"

datatype ColorSpace = RGB | LAB

text \<open>
  The library \<^verbatim>\<open>d3\<close> is outside the repository and is taken as a parameter: \<open>d3_lab\<close>
  stands for \<^verbatim>\<open>d3.lab(d3.rgb(r, g, b))\<close> and yields the components \<open>l\<close>, \<open>a\<close> and \<open>b\<close>;
  \<open>d3_lab_rgb\<close> stands for \<^verbatim>\<open>d3.lab(l, a, b).rgb()\<close> and yields the components \<open>r\<close>, \<open>g\<close>
  and \<open>b\<close>; \<open>d3_Delaunay_from\<close> stands for \<^verbatim>\<open>d3.Delaunay.from(points)\<close>, which may throw, and
  otherwise yields the triangles of \<^verbatim>\<open>trianglePolygons()\<close> and the function \<^verbatim>\<open>neighbors\<close>.
\<close>

record Delaunay =
  trianglePolygons :: "vertices list"
  neighbors :: "int \<Rightarrow> int list"

record d3 =
  d3_lab :: "real \<times> real \<times> real \<Rightarrow> real \<times> real \<times> real"
  d3_lab_rgb :: "real \<times> real \<times> real \<Rightarrow> real \<times> real \<times> real"
  d3_Delaunay_from :: "point list \<Rightarrow> error + Delaunay"

text \<open>Addition of numbers that may be \<^verbatim>\<open>NaN\<close>.\<close>

definition plus_nan :: "real option \<Rightarrow> real option \<Rightarrow> real option" where
  "plus_nan a b = (case (a, b) of (Some x, Some y) \<Rightarrow> Some (x + y) | _ \<Rightarrow> None)"

definition byte_number :: "byte option \<Rightarrow> real option" where
  "byte_number v = map_option (\<lambda>b. real (unat b)) v"

type_synonym colour_sums = "real option \<times> real option \<times> real option \<times> nat"

text \<open>
  The barycentric test at the pixel \<open>(x, y)\<close>, in the arithmetic of doubles: a pixel on an
  edge of the triangle passes or fails with the rounding of its weights. For \<open>detT = 0\<close> the
  three weights are infinite or \<^verbatim>\<open>NaN\<close> and never all at least 0.
\<close>

definition inside_triangle :: "vertices \<Rightarrow> real \<Rightarrow> int \<Rightarrow> int \<Rightarrow> bool" where
  "inside_triangle vs detT x y = (case vs of (p1, p2, p3) \<Rightarrow>
     let lambda1 = fdiv (fadd (fmul (fsub (snd p2) (snd p3)) (fsub (of_int x) (fst p3)))
                              (fmul (fsub (fst p3) (fst p2)) (fsub (of_int y) (snd p3)))) detT;
         lambda2 = fdiv (fadd (fmul (fsub (snd p3) (snd p1)) (fsub (of_int x) (fst p3)))
                              (fmul (fsub (fst p1) (fst p3)) (fsub (of_int y) (snd p3)))) detT;
         lambda3 = fsub (fsub 1 lambda1) lambda2
     in detT \<noteq> 0 \<and> lambda1 \<ge> 0 \<and> lambda2 \<ge> 0 \<and> lambda3 \<ge> 0)"

text \<open>The pixel \<open>(x, y)\<close> is added to the sums.\<close>

definition add_pixel :: "d3 \<Rightarrow> byte list \<Rightarrow> nat \<Rightarrow> ColorSpace \<Rightarrow> colour_sums \<Rightarrow> int \<Rightarrow> int \<Rightarrow> colour_sums" where
  "add_pixel lib data width colorSpace acc x y = (case acc of (c1, c2, c3, count) \<Rightarrow>
     let index = (y * int width + x) * 4;
         r = byte_number (rd data index);
         g = byte_number (rd data (index + 1));
         b = byte_number (rd data (index + 2))
     in if colorSpace = LAB then
          (case (r, g, b) of
             (Some r', Some g', Some b') \<Rightarrow>
               (case d3_lab lib (r', g', b') of (l, a', b'') \<Rightarrow>
                  (plus_nan c1 (Some l), plus_nan c2 (Some a'), plus_nan c3 (Some b''), count + 1))
           | _ \<Rightarrow> (None, None, None, count + 1))
        else (plus_nan c1 r, plus_nan c2 g, plus_nan c3 b, count + 1))"

text \<open>The body of the two pixel loops at the pixel \<open>(x, y)\<close>.\<close>

definition pixel_step ::
  "d3 \<Rightarrow> vertices \<Rightarrow> byte list \<Rightarrow> nat \<Rightarrow> ColorSpace \<Rightarrow> real \<Rightarrow> int \<Rightarrow> colour_sums \<Rightarrow> int \<Rightarrow> colour_sums" where
  "pixel_step lib vs data width colorSpace detT y acc x =
     (if inside_triangle vs detT x y then add_pixel lib data width colorSpace acc x y else acc)"

definition round_nan :: "real option \<Rightarrow> int option" where
  "round_nan v = map_option Math_round v"

text \<open>The bounds \<open>minX\<close>, \<open>maxX\<close>, \<open>minY\<close> and \<open>maxY\<close> of the two pixel loops.\<close>

definition bounding_box :: "vertices \<Rightarrow> nat \<Rightarrow> nat \<Rightarrow> int \<times> int \<times> int \<times> int" where
  "bounding_box vs width height = (case vs of (p1, p2, p3) \<Rightarrow>
     (max 0 \<lfloor>min (fst p1) (min (fst p2) (fst p3))\<rfloor>,
      min (int width) \<lceil>max (fst p1) (max (fst p2) (fst p3))\<rceil>,
      max 0 \<lfloor>min (snd p1) (min (snd p2) (snd p3))\<rfloor>,
      min (int height) \<lceil>max (snd p1) (max (snd p2) (snd p3))\<rceil>))"

definition detT_of :: "vertices \<Rightarrow> real" where
  "detT_of vs = (case vs of (p1, p2, p3) \<Rightarrow>
     fadd (fmul (fsub (snd p2) (snd p3)) (fsub (fst p1) (fst p3)))
          (fmul (fsub (fst p3) (fst p2)) (fsub (snd p1) (snd p3))))"

text \<open>The two pixel loops: the sums \<open>c1\<close>, \<open>c2\<close>, \<open>c3\<close> and \<open>count\<close> after them.\<close>

definition colour_sums ::
  "d3 \<Rightarrow> vertices \<Rightarrow> byte list \<Rightarrow> nat \<Rightarrow> ColorSpace \<Rightarrow> int \<times> int \<times> int \<times> int \<Rightarrow> colour_sums" where
  "colour_sums lib vs data width colorSpace box = (case box of (minX, maxX, minY, maxY) \<Rightarrow>
     foldl (\<lambda>acc y. foldl (pixel_step lib vs data width colorSpace (detT_of vs) y) acc [minX..maxX - 1])
       (Some 0, Some 0, Some 0, 0) [minY..maxY - 1])"

definition byte_int :: "byte option \<Rightarrow> int option" where
  "byte_int v = map_option (\<lambda>b. int (unat b)) v"

definition getAverageColor ::
  "d3 \<Rightarrow> vertices \<Rightarrow> ImageData \<Rightarrow> ColorSpace \<Rightarrow> int option \<times> int option \<times> int option" where
  "getAverageColor lib vs imageData colorSpace =
     (let data = id_data imageData; width = id_width imageData; height = id_height imageData;
          (minX, maxX, minY, maxY) = bounding_box vs width height;
          (c1, c2, c3, count) = colour_sums lib vs data width colorSpace (minX, maxX, minY, maxY)
      in if count = 0 then
           let centerIdx = (((minY + maxY) div 2) * int width + (minX + maxX) div 2) * 4
           in (byte_int (rd data centerIdx), byte_int (rd data (centerIdx + 1)), byte_int (rd data (centerIdx + 2)))
         else if colorSpace = LAB then
           (case (c1, c2, c3) of
              (Some l, Some a, Some b) \<Rightarrow>
                (case d3_lab_rgb lib (l / real count, a / real count, b / real count) of
                   (r, g, b') \<Rightarrow> (Some (Math_round r), Some (Math_round g), Some (Math_round b')))
            | _ \<Rightarrow> (None, None, None))
         else (round_nan (map_option (\<lambda>c. c / real count) c1),
               round_nan (map_option (\<lambda>c. c / real count) c2),
               round_nan (map_option (\<lambda>c. c / real count) c3)))"

section \<open>Grid sampler\<close>

function sampleGrid_cols ::
  "'g random \<Rightarrow> nat \<Rightarrow> nat \<Rightarrow> real \<Rightarrow> real \<Rightarrow> int \<Rightarrow> int \<Rightarrow> int \<Rightarrow> 'g \<times> point list \<Rightarrow> 'g \<times> point list" where
  "sampleGrid_cols random width height colSize rowSize cols i j st =
     (if j < cols then
        let (g, points) = st;
            (u1, g1) = random g;
            jitterX = (val u1 - 0.5) * colSize;
            (u2, g2) = random g1;
            jitterY = (val u2 - 0.5) * rowSize;
            x = min (real width) (max 0 (of_int j * colSize + colSize / 2 + jitterX));
            y = min (real height) (max 0 (of_int i * rowSize + rowSize / 2 + jitterY))
        in sampleGrid_cols random width height colSize rowSize cols i (j + 1) (g2, points @ [(x, y)])
      else st)"
  by pat_completeness auto
termination
  by (relation "measure (\<lambda>(random, width, height, colSize, rowSize, cols, i, j, st). nat (cols - j))") auto

function sampleGrid_rows ::
  "'g random \<Rightarrow> nat \<Rightarrow> nat \<Rightarrow> real \<Rightarrow> real \<Rightarrow> int \<Rightarrow> int \<Rightarrow> int \<Rightarrow> 'g \<times> point list \<Rightarrow> 'g \<times> point list" where
  "sampleGrid_rows random width height colSize rowSize cols rows i st =
     (if i < rows
      then sampleGrid_rows random width height colSize rowSize cols rows (i + 1)
             (sampleGrid_cols random width height colSize rowSize cols i 0 st)
      else st)"
  by pat_completeness auto
termination
  by (relation "measure (\<lambda>(random, width, height, colSize, rowSize, cols, rows, i, st). nat (rows - i))") auto

declare sampleGrid_cols.simps [simp del] sampleGrid_rows.simps [simp del]

text \<open>
  The sampler on numbers for which the source computes with \<^verbatim>\<open>NaN\<close> or an infinity: for a
  target count of at most 0 or a height 0, \<^verbatim>\<open>rows\<close> is \<^verbatim>\<open>NaN\<close> or 0 and no round of the loops
  runs; for a width 0 with a positive height and a target count other than 0, \<^verbatim>\<open>rows\<close> is
  infinite and \<^verbatim>\<open>cols\<close> is 0, and the outer loop does not end (\<open>None\<close>).
\<close>

definition sampleGrid :: "'g random \<Rightarrow> 'g \<Rightarrow> nat \<Rightarrow> nat \<Rightarrow> int \<Rightarrow> point list option" where
  "sampleGrid random g width height numPoints =
     (if width = 0 \<and> 0 < height \<and> numPoints \<noteq> 0 then None
      else if numPoints \<le> 0 \<or> height = 0 then Some []
      else
        let ratio = real width / real height;
            cols = \<lceil>sqrt (of_int numPoints * ratio)\<rceil>;
            rows = \<lceil>real_of_int numPoints / real_of_int cols\<rceil>;
            colSize = real width / of_int cols;
            rowSize = real height / of_int rows
        in Some (snd (sampleGrid_rows random width height colSize rowSize cols rows 0 (g, []))))"

section \<open>Poisson-disc sampler\<close>

text \<open>
  The array \<^verbatim>\<open>grid\<close> is sparse: a hole is \<open>None\<close>. A store beyond the end lengthens the array,
  and a store at a negative index does not touch its elements.
\<close>

definition grid_set :: "point option list \<Rightarrow> int \<Rightarrow> point \<Rightarrow> point option list" where
  "grid_set grid i p =
     (if i < 0 then grid
      else if i < int (length grid) then grid[nat i := Some p]
      else grid @ replicate (nat i - length grid) None @ [Some p])"

definition poisson_w :: "real \<Rightarrow> real" where
  "poisson_w r = r / sqrt 2"

definition poisson_cols :: "real \<Rightarrow> nat \<Rightarrow> int" where
  "poisson_cols r width = \<lfloor>real width / poisson_w r\<rfloor>"

definition poisson_rows :: "real \<Rightarrow> nat \<Rightarrow> int" where
  "poisson_rows r height = \<lfloor>real height / poisson_w r\<rfloor>"

text \<open>The two loops over \<open>dy\<close> and \<open>dx\<close>: the value of \<open>ok\<close> after them.\<close>

definition poisson_ok :: "point option list \<Rightarrow> real \<Rightarrow> int \<Rightarrow> int \<Rightarrow> int \<Rightarrow> int \<Rightarrow> real \<Rightarrow> real \<Rightarrow> bool" where
  "poisson_ok grid r cols rows row col px py =
     list_all (\<lambda>dy. list_all (\<lambda>dx.
        let neighborRow = row + dy; neighborCol = col + dx
        in \<not> (neighborRow \<ge> 0 \<and> neighborRow < rows \<and> neighborCol \<ge> 0 \<and> neighborCol < cols \<and>
              (case rd grid (neighborRow * cols + neighborCol) of
                 Some (Some neighbor) \<Rightarrow> sqrt ((fst neighbor - px)\<^sup>2 + (snd neighbor - py)\<^sup>2) < r
               | _ \<Rightarrow> False)))
        [-2, -1, 0, 1, 2]) [-2, -1, 0, 1, 2]"

text \<open>The loop over the candidates \<open>j\<close>: the accepted candidate, if there is one.\<close>

function samplePoisson_try ::
  "'g random \<Rightarrow> real \<Rightarrow> nat \<Rightarrow> nat \<Rightarrow> point option list \<Rightarrow> point \<Rightarrow> int \<Rightarrow> 'g \<Rightarrow> point option \<times> 'g" where
  "samplePoisson_try random r width height grid pos j g =
     (if j < 30 then
        let (u1, g1) = random g;
            a = 2 * pi * val u1;
            (u2, g2) = random g1;
            m = r * (1 + val u2);
            px = fst pos + m * cos a;
            py = snd pos + m * sin a
        in if px < 0 \<or> px \<ge> real width \<or> py < 0 \<or> py \<ge> real height
           then samplePoisson_try random r width height grid pos (j + 1) g2
           else
             let col = \<lfloor>px / poisson_w r\<rfloor>; row = \<lfloor>py / poisson_w r\<rfloor>
             in if poisson_ok grid r (poisson_cols r width) (poisson_rows r height) row col px py
                then (Some (px, py), g2)
                else samplePoisson_try random r width height grid pos (j + 1) g2
      else (None, g))"
  by pat_completeness auto
termination
  by (relation "measure (\<lambda>(random, r, width, height, grid, pos, j, g). nat (30 - j))") auto

declare samplePoisson_try.simps [simp del]

definition splice1 :: "'a list \<Rightarrow> int \<Rightarrow> 'a list" where
  "splice1 xs i = take (nat i) xs @ drop (nat i + 1) xs"

partial_function (option) samplePoisson_loop ::
  "'g random \<Rightarrow> real \<Rightarrow> nat \<Rightarrow> nat \<Rightarrow> 'g \<Rightarrow> point option list \<Rightarrow> point list \<Rightarrow> (error + point option list) option" where
  "samplePoisson_loop random r width height g grid active =
     (if active = [] then Some (Inr grid)
      else
        let (u, g1) = random g;
            randIndex = \<lfloor>val u * real (length active)\<rfloor>
        in case rd active randIndex of
             None \<Rightarrow> Some (Inl TypeError)
           | Some pos \<Rightarrow>
               (case samplePoisson_try random r width height grid pos 0 g1 of
                  (Some p, g2) \<Rightarrow>
                    samplePoisson_loop random r width height g2
                      (grid_set grid (\<lfloor>snd p / poisson_w r\<rfloor> * poisson_cols r width + \<lfloor>fst p / poisson_w r\<rfloor>) p)
                      (active @ [p])
                | (None, g2) \<Rightarrow>
                    samplePoisson_loop random r width height g2 grid (splice1 active randIndex)))"

text \<open>The minimum distance \<open>r\<close> of line 171.\<close>

definition poisson_r :: "nat \<Rightarrow> nat \<Rightarrow> int \<Rightarrow> real" where
  "poisson_r width height numPoints =
     sqrt ((real width * real height) / (of_int numPoints * pi)) * 1.5"

text \<open>
  The sampler on numbers for which the source computes with \<^verbatim>\<open>NaN\<close> or an infinity. For a
  width or height 0, \<open>r\<close> is 0 (every candidate is out of bounds and the point of the start
  is stored at no index of the array) or, with the target count 0, \<^verbatim>\<open>NaN\<close>. For a negative
  target count \<open>r\<close> is \<^verbatim>\<open>NaN\<close>: every comparison is false, every candidate is accepted and
  the loop does not end (\<open>None\<close>). For the target count 0, \<open>r\<close> is infinite: every
  candidate is out of bounds and the point of the start is the only point.
\<close>

definition samplePoisson :: "'g random \<Rightarrow> 'g \<Rightarrow> nat \<Rightarrow> nat \<Rightarrow> int \<Rightarrow> (error + point list) option" where
  "samplePoisson random g width height numPoints =
     (if width = 0 \<or> height = 0 then (if numPoints = 0 then None else Some (Inr []))
      else if numPoints < 0 then None
      else
        let (u0, g1) = random g;
            initialX = val u0 * real width;
            (u1, g2) = random g1;
            initialY = val u1 * real height;
            p0 = (initialX, initialY)
        in if numPoints = 0 then Some (Inr [p0])
           else
             let r = poisson_r width height numPoints;
                 i0 = \<lfloor>initialX / poisson_w r\<rfloor>;
                 j0 = \<lfloor>initialY / poisson_w r\<rfloor>
             in case samplePoisson_loop random r width height g2
                       (grid_set [] (j0 * poisson_cols r width + i0) p0) [p0] of
                  None \<Rightarrow> None
                | Some (Inl e) \<Rightarrow> Some (Inl e)
                | Some (Inr grid) \<Rightarrow> Some (Inr (List.map_filter id grid)))"

section \<open>Generation\<close>

datatype Sampler = GRID | POISSON | EDGE_AWARE

record Settings =
  st_maxSize :: nat
  st_points :: int
  st_sampler :: Sampler
  st_seed :: real
  st_edgeWeight :: real
  st_colorSpace :: ColorSpace
  st_withNeighbors :: bool
  st_previewOutline :: bool
  st_showPointIds :: bool

record Triangle =
  tr_id :: int
  tr_vertices :: vertices
  tr_centroid :: point
  tr_area_px :: real
  tr_avg_color :: "int option \<times> int option \<times> int option"
  tr_neighbors :: "int list"

record OutputImage =
  oi_width :: nat
  oi_height :: nat
  oi_source :: string

record OutputParams =
  op_sampler :: Sampler
  op_points :: int
  op_seed :: real
  op_color_space :: ColorSpace

record LowPolyOutput =
  lp_version :: string
  lp_image :: OutputImage
  lp_params :: OutputParams
  lp_triangles :: "Triangle list"

text \<open>The test of line 57: some vertex lies outside the canvas.\<close>

definition outside_canvas :: "nat \<Rightarrow> nat \<Rightarrow> vertices \<Rightarrow> bool" where
  "outside_canvas width height vs = (case vs of (a, b, c) \<Rightarrow>
     list_ex (\<lambda>v. fst v < 0 \<or> fst v > real width \<or> snd v < 0 \<or> snd v > real height) [a, b, c])"

text \<open>
  The loop of lines 53 to 79 over the triangles of the triangulation, from the index \<open>i\<close>
  on. Its state is the array \<^verbatim>\<open>triangles\<close>, the entries of \<^verbatim>\<open>triangleIndexMap\<close> in the order
  of their insertion, and \<^verbatim>\<open>currentId\<close>.
\<close>

type_synonym filter_state = "Triangle list \<times> (int \<times> int) list \<times> int"

fun triangle_loop ::
  "d3 \<Rightarrow> ImageData \<Rightarrow> ColorSpace \<Rightarrow> nat \<Rightarrow> nat \<Rightarrow> vertices list \<Rightarrow> int \<Rightarrow> filter_state \<Rightarrow> filter_state" where
  "triangle_loop lib imageData colorSpace width height [] i st = st"
| "triangle_loop lib imageData colorSpace width height (vs # rest) i (triangles, triangleIndexMap, currentId) =
     (if outside_canvas width height vs
      then triangle_loop lib imageData colorSpace width height rest (i + 1)
             (triangles, triangleIndexMap, currentId)
      else
        let centroid = getCentroid vs;
            area = getArea vs
        in if area < 1.0
           then triangle_loop lib imageData colorSpace width height rest (i + 1)
                  (triangles, triangleIndexMap, currentId)
           else
             let avg_color = getAverageColor lib vs imageData colorSpace
             in triangle_loop lib imageData colorSpace width height rest (i + 1)
                  (triangles @ [\<lparr>tr_id = currentId, tr_vertices = vs, tr_centroid = centroid,
                                  tr_area_px = area, tr_avg_color = avg_color, tr_neighbors = []\<rparr>],
                   triangleIndexMap @ [(i, currentId)],
                   currentId + 1))"

text \<open>
  The body of the loop of lines 82 to 93 for one triangle. A neighbour identifier is pushed
  when the map has an entry for the index and the entry is truthy, that is not 0.
\<close>

definition resolve_neighbors :: "Delaunay \<Rightarrow> (int \<times> int) list \<Rightarrow> Triangle \<Rightarrow> Triangle" where
  "resolve_neighbors delaunay triangleIndexMap tri =
     (case find (\<lambda>entry. snd entry = tr_id tri) triangleIndexMap of
        None \<Rightarrow> tri
      | Some (originalIndex, _) \<Rightarrow>
          tri\<lparr>tr_neighbors := tr_neighbors tri @
            List.map_filter
              (\<lambda>neighborIndex. case map_of triangleIndexMap neighborIndex of
                   None \<Rightarrow> None
                 | Some neighborId \<Rightarrow> if neighborId \<noteq> 0 then Some neighborId else None)
              (neighbors delaunay originalIndex)\<rparr>)"

text \<open>
  The points of the chosen sampler, with the source \<^verbatim>\<open>createPRNG(settings.seed)\<close>: \<open>None\<close>
  when the sampler does not return, an error when it throws.
\<close>

definition sample_points :: "Settings \<Rightarrow> nat \<Rightarrow> nat \<Rightarrow> ImageData \<Rightarrow> (error + point list) option" where
  "sample_points settings width height imageData =
     (case st_sampler settings of
        GRID \<Rightarrow> map_option Inr (sampleGrid createPRNG (st_seed settings) width height (st_points settings))
      | POISSON \<Rightarrow> samplePoisson createPRNG (st_seed settings) width height (st_points settings)
      | EDGE_AWARE \<Rightarrow>
          let edgeMap = createEdgeMap imageData
          in Some (Inr (sampleEdgeAware createPRNG (st_seed settings) width height (st_points settings)
                          edgeMap (st_edgeWeight settings))))"

text \<open>The statements from line 44 on, for the sampled points.\<close>

definition assemble ::
  "d3 \<Rightarrow> string \<Rightarrow> Settings \<Rightarrow> nat \<Rightarrow> nat \<Rightarrow> ImageData \<Rightarrow> point list \<Rightarrow> error + LowPolyOutput" where
  "assemble lib sourceFileName settings width height imageData points0 =
     (let points = addBorderPoints points0 (real width) (real height)
      in case d3_Delaunay_from lib points of
           Inl e \<Rightarrow> Inl e
         | Inr delaunay \<Rightarrow>
             let (triangles, triangleIndexMap, currentId) =
                   triangle_loop lib imageData (st_colorSpace settings) width height
                     (trianglePolygons delaunay) 0 ([], [], 1);
                 triangles' = (if st_withNeighbors settings
                               then map (resolve_neighbors delaunay triangleIndexMap) triangles
                               else triangles)
             in Inr \<lparr>lp_version = ''1.0'',
                     lp_image = \<lparr>oi_width = width, oi_height = height, oi_source = sourceFileName\<rparr>,
                     lp_params = \<lparr>op_sampler = st_sampler settings, op_points = st_points settings,
                                  op_seed = st_seed settings, op_color_space = st_colorSpace settings\<rparr>,
                     lp_triangles = triangles'\<rparr>)"

text \<open>
  The promise of \<^verbatim>\<open>generateLowPolyData\<close>: \<open>None\<close> when the computation does not end,
  \<open>Some (Inl e)\<close> when it is rejected with \<open>e\<close>, \<open>Some (Inr output)\<close> when it is resolved.
\<close>

definition generateLowPolyData ::
  "canvas \<Rightarrow> d3 \<Rightarrow> HTMLImageElement \<Rightarrow> string \<Rightarrow> Settings \<Rightarrow> (error + LowPolyOutput) option" where
  "generateLowPolyData cv lib img sourceFileName settings =
     (case getScaledImageData cv img (st_maxSize settings) of
        Inl e \<Rightarrow> Some (Inl e)
      | Inr sc \<Rightarrow>
          let width = sc_width sc; height = sc_height sc; imageData = sc_imageData sc
          in case sample_points settings width height imageData of
               None \<Rightarrow> None
             | Some (Inl e) \<Rightarrow> Some (Inl e)
             | Some (Inr points) \<Rightarrow>
                 Some (assemble lib sourceFileName settings width height imageData points))"

text \<open>A triangle of the triangulation passes the two tests of the loop.\<close>

definition survives :: "nat \<Rightarrow> nat \<Rightarrow> vertices \<Rightarrow> bool" where
  "survives width height vs \<longleftrightarrow> \<not> outside_canvas width height vs \<and> \<not> getArea vs < 1"

section \<open>A concrete run\<close>

text \<open>
  The conversions between RGB and CIELAB as the library d3-color computes them (white point
  D50), with \<^verbatim>\<open>Math.pow\<close> on a positive base as \<open>powr\<close>.
\<close>

definition rgb2lrgb :: "real \<Rightarrow> real" where
  "rgb2lrgb v = (let x = v / 255 in if x \<le> 0.04045 then x / 12.92 else ((x + 0.055) / 1.055) powr 2.4)"

definition lrgb2rgb :: "real \<Rightarrow> real" where
  "lrgb2rgb x = 255 * (if x \<le> 0.0031308 then 12.92 * x else 1.055 * x powr (1 / 2.4) - 0.055)"

definition xyz2lab :: "real \<Rightarrow> real" where
  "xyz2lab t = (if t > (6 / 29) ^ 3 then t powr (1 / 3) else t / (3 * (6 / 29) ^ 2) + 4 / 29)"

definition lab2xyz :: "real \<Rightarrow> real" where
  "lab2xyz t = (if t > 6 / 29 then t * t * t else 3 * (6 / 29) ^ 2 * (t - 4 / 29))"

definition d3color_lab :: "real \<times> real \<times> real \<Rightarrow> real \<times> real \<times> real" where
  "d3color_lab c = (case c of (r0, g0, b0) \<Rightarrow>
     let r = rgb2lrgb r0; g = rgb2lrgb g0; b = rgb2lrgb b0;
         y = xyz2lab ((0.2225045 * r + 0.7168786 * g + 0.0606169 * b) / 1);
         x = (if r = g \<and> g = b then y else xyz2lab ((0.4360747 * r + 0.3850649 * g + 0.1430804 * b) / 0.96422));
         z = (if r = g \<and> g = b then y else xyz2lab ((0.0139322 * r + 0.0971045 * g + 0.7141733 * b) / 0.82521))
     in (116 * y - 16, 500 * (x - y), 200 * (y - z)))"

definition d3color_lab_rgb :: "real \<times> real \<times> real \<Rightarrow> real \<times> real \<times> real" where
  "d3color_lab_rgb c = (case c of (l, a, b) \<Rightarrow>
     let y0 = (l + 16) / 116; x0 = y0 + a / 500; z0 = y0 - b / 200;
         x = 0.96422 * lab2xyz x0; y = 1 * lab2xyz y0; z = 0.82521 * lab2xyz z0
     in (lrgb2rgb (3.1338561 * x - 1.6168667 * y - 0.4906146 * z),
         lrgb2rgb (- 0.9787684 * x + 1.9161415 * y + 0.0334540 * z),
         lrgb2rgb (0.0719453 * x - 0.2289914 * y + 1.4052427 * z)))"

text \<open>
  A triangulation of the border points of the square of side 2: four corner triangles of
  area one half and two triangles of area 1 in the middle.
\<close>

definition square_triangles :: "vertices list" where
  "square_triangles =
     [((0, 0), (1, 0), (0, 1)), ((2, 0), (2, 1), (1, 0)), ((2, 2), (1, 2), (2, 1)), ((0, 2), (0, 1), (1, 2)),
      ((1, 0), (2, 1), (1, 2)), ((1, 0), (1, 2), (0, 1))]"

definition square_neighbors :: "int \<Rightarrow> int list" where
  "square_neighbors i = (if i = 4 then [0, 1, 5] else if i = 5 then [2, 3, 4] else [])"

definition square_d3 :: d3 where
  "square_d3 = \<lparr>d3_lab = d3color_lab, d3_lab_rgb = d3color_lab_rgb,
     d3_Delaunay_from = (\<lambda>points.
       if points = [(0, 0), (0, 0), (2, 0), (0, 2), (2, 2), (1, 0), (1, 2), (0, 1), (2, 1)]
       then Inr \<lparr>trianglePolygons = square_triangles, neighbors = square_neighbors\<rparr>
       else Inl TriangulationError)\<rparr>"

definition uniform_canvas :: canvas where
  "uniform_canvas = \<lparr>canvas_getContext = True,
     canvas_pixels = (\<lambda>img w h. concat (replicate (w * h) [10, 20, 30, 255]))\<rparr>"

definition square_settings :: Settings where
  "square_settings = \<lparr>st_maxSize = 1024, st_points = 1, st_sampler = EDGE_AWARE, st_seed = 0,
     st_edgeWeight = 1 / 2, st_colorSpace = RGB, st_withNeighbors = True,
     st_previewOutline = True, st_showPointIds = False\<rparr>"

definition square_data :: "byte list" where
  "square_data = [10, 20, 30, 255, 10, 20, 30, 255, 10, 20, 30, 255, 10, 20, 30, 255]"

definition square_imageData :: ImageData where
  "square_imageData = \<lparr>id_width = 2, id_height = 2, id_data = square_data\<rparr>"

definition square_output :: LowPolyOutput where
  "square_output = \<lparr>lp_version = ''1.0'',
     lp_image = \<lparr>oi_width = 2, oi_height = 2, oi_source = ''input.png''\<rparr>,
     lp_params = \<lparr>op_sampler = EDGE_AWARE, op_points = 1, op_seed = 0, op_color_space = RGB\<rparr>,
     lp_triangles =
       [\<lparr>tr_id = 1, tr_vertices = ((1, 0), (2, 1), (1, 2)), tr_centroid = (4 / 3, 1), tr_area_px = 1,
         tr_avg_color = (Some 10, Some 20, Some 30), tr_neighbors = [2]\<rparr>,
        \<lparr>tr_id = 2, tr_vertices = ((1, 0), (1, 2), (0, 1)), tr_centroid = (2 / 3, 1), tr_area_px = 1,
         tr_avg_color = (Some 10, Some 20, Some 30), tr_neighbors = [1]\<rparr>]\<rparr>"

text \<open>The triangulation of the four corners of the square of side 2 alone.\<close>

definition corner_triangles :: "vertices list" where
  "corner_triangles = [((0, 0), (2, 0), (0, 2)), ((2, 0), (2, 2), (0, 2))]"

definition corner_neighbors :: "int \<Rightarrow> int list" where
  "corner_neighbors i = (if i = 0 then [1] else if i = 1 then [0] else [])"

definition corner_d3 :: d3 where
  "corner_d3 = \<lparr>d3_lab = d3color_lab, d3_lab_rgb = d3color_lab_rgb,
     d3_Delaunay_from = (\<lambda>points.
       if points = [(0, 0), (2, 0), (0, 2), (2, 2)]
       then Inr \<lparr>trianglePolygons = corner_triangles, neighbors = corner_neighbors\<rparr>
       else Inl TriangulationError)\<rparr>"

definition corner_output :: LowPolyOutput where
  "corner_output = \<lparr>lp_version = ''1.0'',
     lp_image = \<lparr>oi_width = 2, oi_height = 2, oi_source = ''input.png''\<rparr>,
     lp_params = \<lparr>op_sampler = EDGE_AWARE, op_points = 0, op_seed = 0, op_color_space = RGB\<rparr>,
     lp_triangles =
       [\<lparr>tr_id = 1, tr_vertices = ((0, 0), (2, 0), (0, 2)), tr_centroid = (2 / 3, 2 / 3), tr_area_px = 2,
         tr_avg_color = (Some 10, Some 20, Some 30), tr_neighbors = [2]\<rparr>,
        \<lparr>tr_id = 2, tr_vertices = ((2, 0), (2, 2), (0, 2)), tr_centroid = (4 / 3, 4 / 3), tr_area_px = 2,
         tr_avg_color = (Some 10, Some 20, Some 30), tr_neighbors = [1]\<rparr>]\<rparr>"

















definition byte_range :: "int \<Rightarrow> bool" where
  "byte_range v \<longleftrightarrow> 0 \<le> v \<and> v \<le> 255"


text \<open>
  A random source for the sampler in a strip of 100 by 2 pixels: its state counts the
  calls, the eighth call yields nine tenths, the calls before it yield 0 and the calls
  after it one quarter.
\<close>

definition strip_source :: "nat random" where
  "strip_source n = (to_unit (if n < 7 then 0 else if n = 7 then 9 / 10 else 1 / 4), n + 1)"

text \<open>The minimum distance \<open>r\<close> in the strip for the target count 1.\<close>

definition strip_r :: real where
  "strip_r = poisson_r 100 2 1"

section \<open>Properties of the double format\<close>

lemma binade_up_bounds: "1 \<le> x \<Longrightarrow> 2 ^ binade_up x \<le> x \<and> x < 2 * 2 ^ binade_up x"
proof (induction x rule: binade_up.induct)
  case (1 x)
  show ?case
  proof (cases "x < 2")
    case True
    then show ?thesis using 1(2) by (simp add: binade_up.simps)
  next
    case False
    then have "1 \<le> x / 2" by simp
    from 1(1)[OF False this] have "2 ^ binade_up (x / 2) \<le> x / 2 \<and> x / 2 < 2 * 2 ^ binade_up (x / 2)" .
    moreover have "binade_up x = 1 + binade_up (x / 2)" using False by (subst binade_up.simps) simp
    ultimately show ?thesis by simp
  qed
qed

lemma binade_down_bounds: "0 < x \<Longrightarrow> x < 1 \<Longrightarrow> 1 \<le> x * 2 ^ binade_down x \<and> x * 2 ^ binade_down x < 2"
proof (induction x rule: binade_down.induct)
  case (1 x)
  have step: "binade_down x = 1 + binade_down (2 * x)" using 1(2,3) by (subst binade_down.simps) simp
  show ?case
  proof (cases "2 * x < 1")
    case True
    have c: "\<not> (1 \<le> x \<or> x \<le> 0)" using 1(2,3) by simp
    have "0 < 2 * x" using 1(2) by simp
    from 1(1)[OF c this True] show ?thesis unfolding step by (simp add: mult.assoc mult.left_commute)
  next
    case False
    then have "binade_down (2 * x) = 0" by (subst binade_down.simps) simp
    then show ?thesis using False 1(3) unfolding step by simp
  qed
qed

lemma ulp_pos: "0 < ulp x"
  by (simp add: ulp_def)

lemma ulp_bounds: "x \<noteq> 0 \<Longrightarrow> ulp x * 2 ^ 52 \<le> \<bar>x\<bar> \<and> \<bar>x\<bar> < ulp x * 2 ^ 53"
proof -
  assume x: "x \<noteq> 0"
  show ?thesis
  proof (cases "1 \<le> \<bar>x\<bar>")
    case True
    from binade_up_bounds[OF True] show ?thesis using True by (simp add: ulp_def)
  next
    case False
    then have "0 < \<bar>x\<bar>" "\<bar>x\<bar> < 1" using x by simp_all
    from binade_down_bounds[OF this] show ?thesis using False by (simp add: ulp_def field_simps)
  qed
qed

lemma round_even_error: "\<bar>of_int (round_even x) - x\<bar> \<le> 1 / 2"
  unfolding round_even_def Let_def by (auto simp: abs_if split: if_splits) linarith+

lemma round_even_nonneg: "0 \<le> x \<Longrightarrow> 0 \<le> round_even x"
  unfolding round_even_def Let_def by (auto split: if_splits)

lemma round_even_of_int: "round_even (of_int k) = k"
  by (simp add: round_even_def)

text \<open>Rounding moves a number by at most half a unit in the last place.\<close>

lemma fl_error_ulp: "\<bar>fl x - x\<bar> \<le> ulp x / 2"
proof (cases "x = 0")
  case True
  then show ?thesis using ulp_pos[of 0] by (simp add: fl_def)
next
  case False
  have "fl x - x = (of_int (round_even (x / ulp x)) - x / ulp x) * ulp x"
    using False ulp_pos[of x] by (simp add: fl_def left_diff_distrib)
  then have "\<bar>fl x - x\<bar> = \<bar>of_int (round_even (x / ulp x)) - x / ulp x\<bar> * ulp x"
    using ulp_pos[of x] by (simp add: abs_mult)
  also have "\<dots> \<le> 1 / 2 * ulp x"
    by (intro mult_right_mono round_even_error) (simp add: ulp_pos less_imp_le)
  finally show ?thesis by simp
qed

lemma fl_error: "\<bar>fl x - x\<bar> \<le> \<bar>x\<bar> / 2 ^ 53"
proof (cases "x = 0")
  case True
  then show ?thesis by (simp add: fl_def)
next
  case False
  from ulp_bounds[OF False] have "ulp x / 2 \<le> \<bar>x\<bar> / 2 ^ 53" by (simp add: field_simps)
  with fl_error_ulp[of x] show ?thesis by linarith
qed

lemma fl_nonneg: "0 \<le> x \<Longrightarrow> 0 \<le> fl x"
  using ulp_pos[of x] by (simp add: fl_def round_even_nonneg)

text \<open>A multiple of the unit in the last place is a number of the format.\<close>

lemma fl_exact: "x / ulp x = of_int k \<Longrightarrow> fl x = x"
proof -
  assume a: "x / ulp x = of_int k"
  then have "of_int (round_even (x / ulp x)) * ulp x = x / ulp x * ulp x"
    by (simp add: round_even_of_int)
  then show ?thesis using ulp_pos[of x] by (simp add: fl_def)
qed

text \<open>An integer below \<open>2 ^ 53\<close> in absolute value, divided by a power of 2, is a number of the format.\<close>

lemma fl_dyadic:
  assumes "\<bar>k\<bar> < 2 ^ 53"
  shows "fl (of_int k / 2 ^ j) = of_int k / 2 ^ j"
proof (cases "k = 0")
  case True
  then show ?thesis by (simp add: fl_def)
next
  case False
  define x :: real where "x = of_int k / 2 ^ j"
  have x0: "x \<noteq> 0" using False by (simp add: x_def)
  have "real_of_int \<bar>k\<bar> < of_int (2 ^ 53)" using assms by (simp only: of_int_less_iff)
  then have k53: "\<bar>real_of_int k\<bar> < 2 ^ 53" by simp
  have ax: "\<bar>x\<bar> = \<bar>real_of_int k\<bar> / 2 ^ j" by (simp add: x_def)
  have "\<exists>i. x / ulp x = of_int i"
  proof (cases "1 \<le> \<bar>x\<bar>")
    case True
    define n where "n = binade_up \<bar>x\<bar>"
    from binade_up_bounds[OF True] have "2 ^ n \<le> \<bar>x\<bar>" by (simp add: n_def)
    then have "2 ^ n * 2 ^ j \<le> \<bar>real_of_int k\<bar>" by (simp add: ax field_simps)
    with k53 have p: "(2::real) ^ (n + j) < 2 ^ 53" by (simp add: power_add)
    have "n + j < 53" using power_less_imp_less_exp[OF _ p] by simp
    then have nj: "n + j \<le> 52" by simp
    have u: "ulp x = 2 ^ n / 2 ^ 52" using True by (simp add: ulp_def n_def)
    define c :: real where "c = 2 ^ (52 - (n + j))"
    have idx: "52 - (n + j) + n + j = 52" using nj by simp
    have e: "c * 2 ^ n * 2 ^ j = 2 ^ 52" unfolding c_def power_add[symmetric] idx by (rule refl)
    have "x / ulp x = x * 2 ^ 52 / 2 ^ n" unfolding u by simp
    also have "\<dots> = x * (c * 2 ^ n * 2 ^ j) / 2 ^ n" by (simp only: e)
    also have "\<dots> = of_int k * c" by (simp add: x_def)
    also have "\<dots> = of_int (k * 2 ^ (52 - (n + j)))" by (simp add: c_def)
    finally show ?thesis by blast
  next
    case False
    then have b: "0 < \<bar>x\<bar>" "\<bar>x\<bar> < 1" using x0 by simp_all
    define d where "d = binade_down \<bar>x\<bar>"
    from binade_down_bounds[OF b] have "1 \<le> \<bar>x\<bar> * 2 ^ d" by (simp add: d_def)
    then have "2 ^ j \<le> \<bar>real_of_int k\<bar> * 2 ^ d" by (simp add: ax field_simps)
    also have "\<dots> < 2 ^ 53 * 2 ^ d" using k53 by simp
    finally have p: "(2::real) ^ j < 2 ^ (53 + d)" by (simp add: power_add)
    have "j < 53 + d" using power_less_imp_less_exp[OF _ p] by simp
    then have jd: "j \<le> 52 + d" by simp
    have u: "ulp x = 1 / (2 ^ d * 2 ^ 52)" using False by (simp add: ulp_def d_def)
    define c :: real where "c = 2 ^ (52 + d - j)"
    have idx: "52 + d - j + j = d + 52" using jd by simp
    have e: "c * 2 ^ j = 2 ^ d * 2 ^ 52" unfolding c_def power_add[symmetric] idx by (rule refl)
    have "x / ulp x = x * (2 ^ d * 2 ^ 52)" unfolding u by simp
    also have "\<dots> = x * (c * 2 ^ j)" by (simp only: e)
    also have "\<dots> = of_int k * c" by (simp add: x_def)
    also have "\<dots> = of_int (k * 2 ^ (52 + d - j))" by (simp add: c_def)
    finally show ?thesis by blast
  qed
  then obtain i where "x / ulp x = of_int i" by blast
  then have "fl x = x" by (rule fl_exact)
  then show ?thesis by (simp add: x_def)
qed

text \<open>In particular the multiples of one quarter below \<open>2 ^ 51\<close> in absolute value.\<close>

lemma fl_quarters:
  assumes "x * 4 \<in> \<int>" and "\<bar>x\<bar> < 2 ^ 51"
  shows "fl x = x"
proof -
  from assms(1) obtain k :: int where k: "x * 4 = of_int k" by (auto elim: Ints_cases)
  then have x: "x = of_int k / 2 ^ 2" by simp
  have "\<bar>real_of_int k\<bar> < 2 ^ 53" using assms(2) k[symmetric] by simp
  then have "real_of_int \<bar>k\<bar> < of_int (2 ^ 53)" by simp
  then have "\<bar>k\<bar> < 2 ^ 53" by (simp only: of_int_less_iff)
  from fl_dyadic[OF this, of 2] show ?thesis unfolding x .
qed

lemmas fl_ops = fadd_def fsub_def fmul_def fdiv_def

section \<open>Properties of the image normaliser\<close>

lemma Math_round_nearest: "\<bar>real_of_int (Math_round x) - x\<bar> \<le> 1 / 2"
  unfolding Math_round_def by linarith

lemma Math_round_nonneg: "0 \<le> x \<Longrightarrow> 0 \<le> Math_round x"
  unfolding Math_round_def by simp

lemma Math_round_le_nat:
  assumes "x < real m + 1 / 2"
  shows "Math_round x \<le> int m"
proof -
  have "x + 1 / 2 < real_of_int (int m + 1)" using assms by simp
  then have "\<lfloor>x + 1 / 2\<rfloor> < int m + 1" by (simp only: floor_less_iff)
  then show ?thesis unfolding Math_round_def by simp
qed

text \<open>
  The product of doubles \<^verbatim>\<open>a * (maxSize / b)\<close> of line 124 or 127, for \<open>a \<le> b\<close>: it differs
  from the exact product by at most \<open>maxSize / 2 ^ 51\<close>.
\<close>

lemma scaled_product:
  assumes b: "0 < b" and ab: "a \<le> b"
  shows "0 \<le> fmul (real a) (fdiv (real m) (real b)) \<and>
     \<bar>fmul (real a) (fdiv (real m) (real b)) - real a * (real m / real b)\<bar> \<le> real m / 2 ^ 51"
proof -
  define q where "q = real m / real b"
  define q' where "q' = fl q"
  define p0 where "p0 = real a * q'"
  define p where "p = fl p0"
  have q: "0 \<le> q" by (simp add: q_def)
  then have q': "0 \<le> q'" unfolding q'_def by (rule fl_nonneg)
  then have p0: "0 \<le> p0" by (simp add: p0_def)
  then have p: "0 \<le> p" unfolding p_def by (rule fl_nonneg)
  have aq: "real a * q \<le> real m"
  proof -
    have "real a * real m \<le> real b * real m" using ab by (simp add: mult_right_mono)
    then show ?thesis using b by (simp add: q_def field_simps)
  qed
  have aq0: "0 \<le> real a * q" using q by simp
  have e1: "\<bar>q' - q\<bar> \<le> q / 2 ^ 53" using fl_error[of q] q by (simp add: q'_def)
  have "\<bar>p0 - real a * q\<bar> = real a * \<bar>q' - q\<bar>"
    by (simp add: p0_def right_diff_distrib[symmetric] abs_mult)
  also have "\<dots> \<le> real a * (q / 2 ^ 53)"
    using e1 by (intro mult_left_mono) simp_all
  finally have e2: "\<bar>p0 - real a * q\<bar> \<le> real a * q / 2 ^ 53" by simp
  have e3: "\<bar>p - p0\<bar> \<le> p0 / 2 ^ 53" using fl_error[of p0] p0 by (simp add: p_def)
  have "p0 \<le> real a * q + real a * q / 2 ^ 53" using e2 by linarith
  also have "\<dots> \<le> 2 * (real a * q)" using aq0 by (simp add: field_simps)
  finally have "p0 \<le> 2 * (real a * q)" .
  then have "p0 / 2 ^ 53 \<le> 2 * (real a * q) / 2 ^ 53" by (rule divide_right_mono) simp
  with e3 have e4: "\<bar>p - p0\<bar> \<le> 2 * (real a * q) / 2 ^ 53" by linarith
  have "\<bar>p - real a * q\<bar> \<le> \<bar>p - p0\<bar> + \<bar>p0 - real a * q\<bar>" by linarith
  also have "\<dots> \<le> 2 * (real a * q) / 2 ^ 53 + real a * q / 2 ^ 53" using e2 e4 by linarith
  also have "\<dots> \<le> real a * q / 2 ^ 51" using aq0 by (simp add: field_simps)
  also have "\<dots> \<le> real m / 2 ^ 51" using aq by (simp add: divide_right_mono)
  finally have "\<bar>p - real a * q\<bar> \<le> real m / 2 ^ 51" .
  then show ?thesis using p unfolding p_def p0_def q'_def q_def fmul_def fdiv_def by simp
qed

text \<open>The scaled dimension: a natural number near the exact product.\<close>

lemma scaled_dimension:
  assumes b: "0 < b" and ab: "a \<le> b"
  shows "\<exists>k. of_int (Math_round (fmul (real a) (fdiv (real m) (real b)))) = real k \<and>
     \<bar>real k - real a * (real m / real b)\<bar> \<le> 1 / 2 + real m / 2 ^ 51 \<and>
     (m < 2 ^ 50 \<longrightarrow> k \<le> m)"
proof -
  define p where "p = fmul (real a) (fdiv (real m) (real b))"
  define k where "k = nat (Math_round p)"
  from scaled_product[OF b ab, of m] have p: "0 \<le> p"
    and e: "\<bar>p - real a * (real m / real b)\<bar> \<le> real m / 2 ^ 51" by (simp_all add: p_def)
  have k: "real_of_int (Math_round p) = real k"
    using Math_round_nonneg[OF p] by (simp add: k_def)
  have near: "\<bar>real k - real a * (real m / real b)\<bar> \<le> 1 / 2 + real m / 2 ^ 51"
    using Math_round_nearest[of p] e unfolding k by linarith
  have le: "k \<le> m" if m: "m < 2 ^ 50"
  proof -
    have "real a * real m \<le> real b * real m" using ab by (simp add: mult_right_mono)
    then have "real a * (real m / real b) \<le> real m" using b by (simp add: field_simps)
    moreover have "real m < 2 ^ 50" using m by (metis of_nat_less_iff of_nat_numeral of_nat_power)
    then have "real m / 2 ^ 51 < 1 / 2" by simp
    ultimately have "p < real m + 1 / 2" using e by linarith
    then have "Math_round p \<le> int m" by (rule Math_round_le_nat)
    then show ?thesis by (simp add: k_def)
  qed
  from k near le show ?thesis unfolding p_def by blast
qed

text \<open>For a natural number as the bound both dimensions are natural numbers.\<close>

lemma scaledSize_nat: "\<exists>W H. scaledSize w h (real m) = Some (real W, real H)"
proof -
  consider (small) "w \<le> m" "h \<le> m" | (wide) "\<not> (w \<le> m \<and> h \<le> m)" "h < w" | (tall) "\<not> (w \<le> m \<and> h \<le> m)" "\<not> h < w"
    by blast
  then show ?thesis
  proof cases
    case small
    then show ?thesis by (auto simp: scaledSize_def)
  next
    case wide
    then have "0 < w" "h \<le> w" by simp_all
    from scaled_dimension[OF this, of m] obtain k where
      "of_int (Math_round (fmul (real h) (fdiv (real m) (real w)))) = real k" by blast
    then show ?thesis using wide by (auto simp: scaledSize_def)
  next
    case tall
    then have "0 < h" "w \<le> h" by auto
    from scaled_dimension[OF this, of m] obtain k where
      "of_int (Math_round (fmul (real w) (fdiv (real m) (real h)))) = real k" by blast
    then show ?thesis using tall by (auto simp: scaledSize_def)
  qed
qed

text \<open>A bound that is not an integer is copied as it is.\<close>

lemma scaledSize_fraction: "scaledSize 1000 500 (601 / 2) = Some (601 / 2, 150)"
  by (simp add: scaledSize_def fmul_def fdiv_def fl_def ulp_def binade_down.simps binade_up.simps
        round_even_def Let_def Math_round_def)

lemma getScaledImageData_positive:
  assumes "getScaledImageData cv img maxSize = Inr sc"
  shows "0 < sc_width sc \<and> 0 < sc_height sc"
  using assms
  by (auto simp: getScaledImageData_def getImageData_def Let_def split: if_splits prod.splits option.splits)


text \<open>The products of doubles of the examples below.\<close>

lemma scaled_3000: "Math_round (fmul 1 (fdiv 1000 3000)) = 0"
  by (simp add: fmul_def fdiv_def fl_def ulp_def binade_down.simps binade_up.simps round_even_def Let_def Math_round_def)

lemma scaled_25088: "fmul 49 (fdiv 256 25088) = 9007199254740991 / 18014398509481984"
  by (simp add: fmul_def fdiv_def fl_def ulp_def binade_down.simps binade_up.simps round_even_def Let_def)

lemma scaled_4000: "Math_round (fmul 3000 (fdiv 1024 4000)) = 768"
  by (simp add: fmul_def fdiv_def fl_def ulp_def binade_down.simps binade_up.simps round_even_def Let_def Math_round_def)

text \<open>
  Claim C9 as the specification states it: for every source image and bound the normaliser
  returns a buffer whose width and height are positive. An image of 3000 by 1 pixels with
  the bound 1000 is scaled to a height of \<^verbatim>\<open>Math.round(1 * (1000 / 3000))\<close>, which is 0, and
  no buffer is returned: \<^verbatim>\<open>getImageData\<close> raises the \<^verbatim>\<open>IndexSizeError\<close>.
\<close>

theorem getScaledImageData_counterexample:
  "getScaledImageData blank_canvas \<lparr>image_width = 3000, image_height = 1\<rparr> 1000 = Inl IndexSizeError"
proof -
  have "scaledSize 3000 1 1000 = Some (1000, 0)"
    using scaled_3000 by (simp add: scaledSize_def)
  then have "scaledSize 3000 1 (real 1000) = Some (1000, 0)" by simp
  then show ?thesis
    by (simp add: getScaledImageData_def getImageData_def blank_canvas_def del: One_nat_def of_nat_numeral)
qed

text \<open>
  The exact product \<open>49 * (256 / 25088)\<close> is one half, which \<^verbatim>\<open>Math.round\<close> takes to 1. The
  product of doubles is the double below one half, and the height is 0.
\<close>

lemma getScaledImageData_rounding:
  "getScaledImageData blank_canvas \<lparr>image_width = 25088, image_height = 49\<rparr> 256 = Inl IndexSizeError"
proof -
  have "scaledSize 25088 49 256 = Some (256, 0)"
    by (simp add: scaledSize_def scaled_25088 Math_round_def)
  then have "scaledSize 25088 49 (real 256) = Some (256, 0)" by simp
  then show ?thesis
    by (simp add: getScaledImageData_def getImageData_def blank_canvas_def del: of_nat_numeral)
qed

text \<open>
  Claim C9, amended, for a natural number \<open>m\<close> as the bound and a 2D context at hand. The
  normaliser computes two natural numbers \<open>W\<close> and \<open>H\<close>. They are the source's dimensions
  when both are at most \<open>m\<close>. Otherwise the larger dimension of the source, the width when
  it exceeds the height and else the height, becomes \<open>m\<close>, and the other one becomes
  \<^verbatim>\<open>Math.round\<close> of the product of doubles, which is within \<open>1 / 2 + m / 2 ^ 51\<close> of the
  source's dimension scaled by the same factor, and at most \<open>m\<close> for \<open>m < 2 ^ 50\<close>. When
  \<open>W\<close> or \<open>H\<close> is 0 the \<^verbatim>\<open>IndexSizeError\<close> is raised and no buffer is returned; otherwise
  the buffer returned has the width \<open>W\<close> and the height \<open>H\<close>, which are those of its pixel
  data.
\<close>

theorem getScaledImageData_result:
  assumes ctx: "canvas_getContext cv"
  shows "\<exists>W H. scaledSize (image_width img) (image_height img) (real m) = Some (real W, real H) \<and>
     (if image_width img \<le> m \<and> image_height img \<le> m
      then W = image_width img \<and> H = image_height img
      else if image_height img < image_width img
      then W = m \<and> (m < 2 ^ 50 \<longrightarrow> H \<le> m) \<and>
           \<bar>real H - real (image_height img) * (real m / real (image_width img))\<bar> \<le> 1 / 2 + real m / 2 ^ 51
      else H = m \<and> (m < 2 ^ 50 \<longrightarrow> W \<le> m) \<and>
           \<bar>real W - real (image_width img) * (real m / real (image_height img))\<bar> \<le> 1 / 2 + real m / 2 ^ 51) \<and>
     getScaledImageData cv img m =
       (if W = 0 \<or> H = 0 then Inl IndexSizeError
        else Inr \<lparr>sc_width = W, sc_height = H,
                   sc_imageData = \<lparr>id_width = W, id_height = H, id_data = canvas_pixels cv img W H\<rparr>\<rparr>)"
proof -
  define w where "w = image_width img"
  define h where "h = image_height img"
  have res: "getScaledImageData cv img m =
       (if W = 0 \<or> H = 0 then Inl IndexSizeError
        else Inr \<lparr>sc_width = W, sc_height = H,
                   sc_imageData = \<lparr>id_width = W, id_height = H, id_data = canvas_pixels cv img W H\<rparr>\<rparr>)"
    if "scaledSize w h (real m) = Some (real W, real H)" for W H
    using that ctx by (simp add: getScaledImageData_def getImageData_def w_def h_def)
  consider (small) "w \<le> m" "h \<le> m" | (wide) "\<not> (w \<le> m \<and> h \<le> m)" "h < w" | (tall) "\<not> (w \<le> m \<and> h \<le> m)" "\<not> h < w"
    by blast
  then have "\<exists>W H. scaledSize w h (real m) = Some (real W, real H) \<and>
     (if w \<le> m \<and> h \<le> m then W = w \<and> H = h
      else if h < w
      then W = m \<and> (m < 2 ^ 50 \<longrightarrow> H \<le> m) \<and> \<bar>real H - real h * (real m / real w)\<bar> \<le> 1 / 2 + real m / 2 ^ 51
      else H = m \<and> (m < 2 ^ 50 \<longrightarrow> W \<le> m) \<and> \<bar>real W - real w * (real m / real h)\<bar> \<le> 1 / 2 + real m / 2 ^ 51)"
  proof cases
    case small
    then have "scaledSize w h (real m) = Some (real w, real h)" by (auto simp: scaledSize_def)
    then show ?thesis using small by - (rule exI[of _ w], rule exI[of _ h], auto)
  next
    case wide
    then have "0 < w" "h \<le> w" by simp_all
    from scaled_dimension[OF this, of m] obtain k where
      k: "of_int (Math_round (fmul (real h) (fdiv (real m) (real w)))) = real k"
      "\<bar>real k - real h * (real m / real w)\<bar> \<le> 1 / 2 + real m / 2 ^ 51" "m < 2 ^ 50 \<longrightarrow> k \<le> m"
      by blast
    have "scaledSize w h (real m) = Some (real m, real k)"
      using wide k(1) by (auto simp: scaledSize_def)
    then show ?thesis using wide k(2,3) by - (rule exI[of _ m], rule exI[of _ k], auto)
  next
    case tall
    then have "0 < h" "w \<le> h" by auto
    from scaled_dimension[OF this, of m] obtain k where
      k: "of_int (Math_round (fmul (real w) (fdiv (real m) (real h)))) = real k"
      "\<bar>real k - real w * (real m / real h)\<bar> \<le> 1 / 2 + real m / 2 ^ 51" "m < 2 ^ 50 \<longrightarrow> k \<le> m"
      by blast
    have "scaledSize w h (real m) = Some (real k, real m)"
      using tall k(1) \<open>0 < h\<close> by (auto simp: scaledSize_def)
    then show ?thesis using tall k(2,3) by - (rule exI[of _ k], rule exI[of _ m], auto)
  qed
  then obtain W H where s: "scaledSize w h (real m) = Some (real W, real H)"
    and d: "if w \<le> m \<and> h \<le> m then W = w \<and> H = h
      else if h < w
      then W = m \<and> (m < 2 ^ 50 \<longrightarrow> H \<le> m) \<and> \<bar>real H - real h * (real m / real w)\<bar> \<le> 1 / 2 + real m / 2 ^ 51
      else H = m \<and> (m < 2 ^ 50 \<longrightarrow> W \<le> m) \<and> \<bar>real W - real w * (real m / real h)\<bar> \<le> 1 / 2 + real m / 2 ^ 51"
    by blast
  from s d res[OF s] show ?thesis
    unfolding w_def h_def by - (rule exI[of _ W], rule exI[of _ H], intro conjI; assumption)
qed

text \<open>The amended claim at an image of 4000 by 3000 pixels and the bound 1024.\<close>

theorem getScaledImageData_result_witness:
  "canvas_getContext blank_canvas \<and> (1024::nat) < 2 ^ 50 \<and> (768::nat) \<le> 1024 \<and>
   scaledSize 4000 3000 (real 1024) = Some (real 1024, real 768) \<and>
   \<bar>real 768 - real 3000 * (real 1024 / real 4000)\<bar> \<le> 1 / 2 + real 1024 / 2 ^ 51 \<and>
   getScaledImageData blank_canvas \<lparr>image_width = 4000, image_height = 3000\<rparr> 1024 =
     Inr \<lparr>sc_width = 1024, sc_height = 768,
          sc_imageData = \<lparr>id_width = 1024, id_height = 768,
                          id_data = canvas_pixels blank_canvas \<lparr>image_width = 4000, image_height = 3000\<rparr> 1024 768\<rparr>\<rparr>"
proof -
  have c: "canvas_getContext blank_canvas" by (simp add: blank_canvas_def)
  have s: "scaledSize 4000 3000 (real 1024) = Some (real 1024, real 768)"
    using scaled_4000 by (simp add: scaledSize_def)
  from getScaledImageData_result[OF c, of "\<lparr>image_width = 4000, image_height = 3000\<rparr>" 1024]
  obtain W H where wh: "scaledSize 4000 3000 (real 1024) = Some (real W, real H)"
    and r: "getScaledImageData blank_canvas \<lparr>image_width = 4000, image_height = 3000\<rparr> 1024 =
       (if W = 0 \<or> H = 0 then Inl IndexSizeError
        else Inr \<lparr>sc_width = W, sc_height = H,
                   sc_imageData = \<lparr>id_width = W, id_height = H,
                     id_data = canvas_pixels blank_canvas \<lparr>image_width = 4000, image_height = 3000\<rparr> W H\<rparr>\<rparr>)"
    by auto
  from wh s have "W = 1024" "H = 768" by simp_all
  with r c s show ?thesis by simp
qed

section \<open>Properties of the border augmenter\<close>


lemma ceiling_sqrt5_half: "\<lceil>sqrt 5 / 2\<rceil> = 2"
proof -
  have "2 < sqrt 5" by (rule real_less_rsqrt) simp
  moreover have "sqrt 5 \<le> 4" by (rule real_le_lsqrt) simp_all
  ultimately show ?thesis by (simp add: ceiling_eq_iff)
qed




section \<open>Properties of the samplers\<close>

lemma val_to_unit: "0 \<le> x \<Longrightarrow> x < 1 \<Longrightarrow> val (to_unit x) = x"
  by (simp add: val_def to_unit_def Abs_unit_real_inverse)

lemma val_range: "0 \<le> val u \<and> val u < 1"
  using Rep_unit_real[of u] by (simp add: val_def)

lemma floor_scaled_range:
  assumes "0 < n"
  shows "0 \<le> \<lfloor>val u * real n\<rfloor> \<and> \<lfloor>val u * real n\<rfloor> \<le> int n - 1"
proof -
  have a: "0 \<le> val u" and b: "val u < 1" using val_range[of u] by simp_all
  have "0 \<le> val u * real n" using a by simp
  then have lo: "0 \<le> \<lfloor>val u * real n\<rfloor>" by simp
  have "val u * real n < 1 * real n" using b assms by (intro mult_strict_right_mono) simp_all
  then have "val u * real n < of_int (int n)" by simp
  then have "\<lfloor>val u * real n\<rfloor> < int n" by (simp only: floor_less_iff)
  with lo show ?thesis by simp
qed

lemma sampleEdgeAware_loop_pixel:
  "0 < width \<Longrightarrow> 0 < height \<Longrightarrow> list_all (pixel_point width height) points \<Longrightarrow>
     list_all (pixel_point width height)
       (sampleEdgeAware_loop random width height numPoints edgeMap edgeWeight g points attempts)"
proof (induction random width height numPoints edgeMap edgeWeight g points attempts
       rule: sampleEdgeAware_loop.induct)
  case (1 random width height numPoints edgeMap edgeWeight g points attempts)
  show ?case
  proof (cases "int (length points) < numPoints \<and> attempts < numPoints * 10")
    case False
    then show ?thesis using 1(4) by (subst sampleEdgeAware_loop.simps) auto
  next
    case True
    obtain u1 g1 where r1: "random g = (u1, g1)" by (cases "random g")
    obtain u2 g2 where r2: "random g1 = (u2, g2)" by (cases "random g1")
    obtain u3 g3 where r3: "random g2 = (u3, g3)" by (cases "random g2")
    define x where "x = \<lfloor>val u1 * real width\<rfloor>"
    define y where "y = \<lfloor>val u2 * real height\<rfloor>"
    define accept where "accept = (case rd edgeMap (y * int width + x) of
                        None \<Rightarrow> False
                      | Some e \<Rightarrow>
                          val u3 < (1 - edgeWeight) + edgeWeight * (real (unat e) / 255))"
    define points' where "points' = (if accept then points @ [(of_int x, of_int y)] else points)"
    have "pixel_point width height (of_int x, of_int y)"
      unfolding pixel_point_def x_def y_def
      using floor_scaled_range[OF 1(2), of u1] floor_scaled_range[OF 1(3), of u2] by blast
    then have inv: "list_all (pixel_point width height) points'"
      using 1(4) by (simp add: points'_def)
    have step: "sampleEdgeAware_loop random width height numPoints edgeMap edgeWeight g points attempts
        = sampleEdgeAware_loop random width height numPoints edgeMap edgeWeight g3 points' (attempts + 1)"
      using True
      by (subst sampleEdgeAware_loop.simps)
         (simp add: r1 r2 r3 Let_def x_def y_def accept_def points'_def)
    have "list_all (pixel_point width height)
        (sampleEdgeAware_loop random width height numPoints edgeMap edgeWeight g3 points' (attempts + 1))"
      using 1(2) 1(3) inv
      by (rule "1.IH"[OF True refl r1[symmetric] x_def refl r2[symmetric] y_def refl r3[symmetric] accept_def,
            unfolded points'_def[symmetric]])
    then show ?thesis by (simp only: step)
  qed
qed

text \<open>
  Claim C10. In an image of positive width and height, every point that the edge-aware
  sampler returns has integer coordinates \<open>x\<close> and \<open>y\<close> with \<open>0 \<le> x \<le> width - 1\<close> and
  \<open>0 \<le> y \<le> height - 1\<close>, for every random source, target count, edge map and edge weight.
\<close>

theorem sampleEdgeAware_pixel_points:
  assumes "0 < width" and "0 < height"
  shows "list_all (pixel_point width height)
           (sampleEdgeAware random g width height numPoints edgeMap edgeWeight)"
  unfolding sampleEdgeAware_def
  using assms by (intro sampleEdgeAware_loop_pixel) simp_all

lemma half_val: "val (to_unit (1 / 2)) = 1 / 2"
  by (simp add: val_to_unit)

lemma sampleEdgeAware_half_source:
  "sampleEdgeAware half_source () 4 3 2 (replicate 12 0) (1 / 5) = [(2, 1), (2, 1)]"
  unfolding sampleEdgeAware_def
  apply (subst sampleEdgeAware_loop.simps)
  apply (simp add: half_source_def half_val rd_def Let_def)
  apply (subst sampleEdgeAware_loop.simps)
  apply (simp add: half_source_def half_val rd_def Let_def)
  apply (subst sampleEdgeAware_loop.simps)
  apply (simp add: half_source_def half_val rd_def Let_def)
  done

text \<open>
  The claim at an image of 4 by 3 pixels with an all-zero edge map, two target points, the
  edge weight one fifth and the source that always yields one half.
\<close>

theorem sampleEdgeAware_pixel_points_witness:
  "(0::nat) < 4 \<and> (0::nat) < 3 \<and>
   sampleEdgeAware half_source () 4 3 2 (replicate 12 0) (1 / 5) = [(2, 1), (2, 1)] \<and>
   list_all (pixel_point 4 3) [(2, 1), (2, 1)]"
proof -
  have w: "(0::nat) < 4" and h: "(0::nat) < 3" by simp_all
  show ?thesis
    using sampleEdgeAware_pixel_points[OF w h, of half_source "()" 2 "replicate 12 0" "1 / 5"]
    by (simp add: sampleEdgeAware_half_source)
qed

section \<open>Properties of the edge detector\<close>

lemma step_image_grayscale:
  "grayscale_loop (id_data step_image) 0 (replicate (3 * 3) 0) = [0, 0, 255, 0, 0, 255, 0, 0, 255]"
  by code_simp

lemma step_image_gradient: "gradient [0, 0, 255, 0, 0, 255, 0, 0, 255] 3 1 1 = Some (1020, 0)"
  by code_simp

lemma step_image_sobel:
  "sobel_y_loop [0, 0, 255, 0, 0, 255, 0, 0, 255] 3 3 1 (replicate (3 * 3) 0, 0)
     = ([0, 0, 0, 0, 255, 0, 0, 0, 0], 1020)"
proof -
  have m: "magnitude (gradient [0, 0, 255, 0, 0, 255, 0, 0, 255] 3 1 1) = Some 1020"
    by (simp add: step_image_gradient magnitude_def)
  have st: "store (replicate (3 * 3) 0) (1 * int 3 + 1) (Some 1020) = [0, 0, 0, 0, 255, 0, 0, 0, 0]"
    by code_simp
  have x: "sobel_x_loop [0, 0, 255, 0, 0, 255, 0, 0, 255] 3 1 1 (replicate (3 * 3) 0, 0)
      = ([0, 0, 0, 0, 255, 0, 0, 0, 0], 1020)"
    apply (subst sobel_x_loop.simps)
    apply (simp only: m st Let_def prod.case option.case)
    apply (subst sobel_x_loop.simps)
    apply simp
    done
  show ?thesis
    apply (subst sobel_y_loop.simps)
    apply (simp only: x)
    apply (subst sobel_y_loop.simps)
    apply simp
    done
qed

lemma toUint8Clamp_0: "toUint8Clamp 0 = 0"
  by (simp add: toUint8Clamp_def)

lemma toUint8Clamp_255_4: "toUint8Clamp (255 / 4) = 64"
  by (simp add: toUint8Clamp_def)

text \<open>
  Claim C3 at the image \<open>step_image\<close>. The gradient at the centre pixel has the magnitude
  1020. The store into the byte array clamps it to 255, the maximum that the loop keeps is
  the unclamped 1020, and the normalisation divides the one by the other: the largest
  value of the returned map is 64, not 255.
\<close>

theorem createEdgeMap_step_image:
  "createEdgeMap step_image = [0, 0, 0, 0, 64, 0, 0, 0, 0] \<and>
   magnitude (gradient (grayscale_loop (id_data step_image) 0 (replicate (3 * 3) 0)) 3 1 1) = Some 1020"
proof -
  have d: "id_width step_image = 3" "id_height step_image = 3" by (simp_all add: step_image_def)
  have "createEdgeMap step_image = [0, 0, 0, 0, 64, 0, 0, 0, 0]"
    unfolding createEdgeMap_def Let_def d step_image_grayscale step_image_sobel
    by (simp add: toUint8Clamp_0 toUint8Clamp_255_4)
  moreover have "magnitude (gradient (grayscale_loop (id_data step_image) 0 (replicate (3 * 3) 0)) 3 1 1) = Some 1020"
    unfolding step_image_grayscale step_image_gradient by (simp add: magnitude_def)
  ultimately show ?thesis by simp
qed

section \<open>Properties of the generation\<close>

lemma triangle_loop_inv:
  "triangle_loop lib imageData colorSpace width height polys i (ts, m, c) = (ts', m', c') \<Longrightarrow>
     map tr_vertices ts' = map tr_vertices ts @ filter (survives width height) polys \<and>
     map tr_id ts' = map tr_id ts @ [c..c + int (length (filter (survives width height) polys)) - 1] \<and>
     map snd m' = map snd m @ [c..c + int (length (filter (survives width height) polys)) - 1] \<and>
     map tr_neighbors ts' = map tr_neighbors ts @ replicate (length (filter (survives width height) polys)) [] \<and>
     map tr_avg_color ts' = map tr_avg_color ts @
        map (\<lambda>vs. getAverageColor lib vs imageData colorSpace) (filter (survives width height) polys)"
proof (induction polys arbitrary: i ts m c)
  case Nil
  then show ?case by simp
next
  case (Cons vs rest)
  show ?case
  proof (cases "survives width height vs")
    case False
    then have "triangle_loop lib imageData colorSpace width height (vs # rest) i (ts, m, c)
        = triangle_loop lib imageData colorSpace width height rest (i + 1) (ts, m, c)"
      by (auto simp: survives_def Let_def)
    with Cons.prems Cons.IH[of "i + 1" ts m c] False show ?thesis by simp
  next
    case True
    define t where "t = \<lparr>tr_id = c, tr_vertices = vs, tr_centroid = getCentroid vs,
        tr_area_px = getArea vs, tr_avg_color = getAverageColor lib vs imageData colorSpace,
        tr_neighbors = []\<rparr>"
    have "triangle_loop lib imageData colorSpace width height (vs # rest) i (ts, m, c)
        = triangle_loop lib imageData colorSpace width height rest (i + 1) (ts @ [t], m @ [(i, c)], c + 1)"
      using True by (simp add: survives_def Let_def t_def)
    with Cons.prems have
      "triangle_loop lib imageData colorSpace width height rest (i + 1) (ts @ [t], m @ [(i, c)], c + 1) = (ts', m', c')"
      by simp
    note ih = Cons.IH[OF this]
    define k where "k = length (filter (survives width height) rest)"
    have up: "[c..c + int (Suc k) - 1] = c # [c + 1..c + 1 + int k - 1]"
      by (subst upto_rec1) (simp_all add: algebra_simps)
    show ?thesis
      using ih True up by (simp add: t_def k_def)
  qed
qed

lemma resolve_neighbors_id [simp]: "tr_id (resolve_neighbors d m t) = tr_id t"
  by (simp add: resolve_neighbors_def split: option.splits prod.splits)

lemma resolve_neighbors_vertices [simp]: "tr_vertices (resolve_neighbors d m t) = tr_vertices t"
  by (simp add: resolve_neighbors_def split: option.splits prod.splits)

lemma resolve_neighbors_avg_color [simp]: "tr_avg_color (resolve_neighbors d m t) = tr_avg_color t"
  by (simp add: resolve_neighbors_def split: option.splits prod.splits)

lemma resolve_neighbors_subset:
  "set (tr_neighbors (resolve_neighbors d m t)) \<subseteq> set (tr_neighbors t) \<union> snd ` set m"
proof -
  have "n \<in> snd ` set m" if "map_of m k = Some n" for k n
    using that by (metis map_of_SomeD image_eqI snd_conv)
  then show ?thesis
    by (auto simp: resolve_neighbors_def List.map_filter_def split: option.splits prod.splits if_splits)
qed

text \<open>What a resolved promise tells about the run.\<close>

lemma generate_resolved:
  assumes "generateLowPolyData cv lib img sourceFileName settings = Some (Inr output)"
  shows "\<exists>sc points0 delaunay ts m c.
     getScaledImageData cv img (st_maxSize settings) = Inr sc \<and>
     sample_points settings (sc_width sc) (sc_height sc) (sc_imageData sc) = Some (Inr points0) \<and>
     d3_Delaunay_from lib (addBorderPoints points0 (real (sc_width sc)) (real (sc_height sc))) = Inr delaunay \<and>
     triangle_loop lib (sc_imageData sc) (st_colorSpace settings) (sc_width sc) (sc_height sc)
       (trianglePolygons delaunay) 0 ([], [], 1) = (ts, m, c) \<and>
     lp_triangles output = (if st_withNeighbors settings then map (resolve_neighbors delaunay m) ts else ts) \<and>
     oi_width (lp_image output) = sc_width sc \<and> oi_height (lp_image output) = sc_height sc"
proof -
  from assms obtain sc where sc: "getScaledImageData cv img (st_maxSize settings) = Inr sc"
    by (auto simp: generateLowPolyData_def split: sum.splits)
  from assms sc obtain points0 where
    sp: "sample_points settings (sc_width sc) (sc_height sc) (sc_imageData sc) = Some (Inr points0)"
    and asm: "assemble lib sourceFileName settings (sc_width sc) (sc_height sc) (sc_imageData sc) points0 = Inr output"
    by (auto simp: generateLowPolyData_def Let_def split: sum.splits option.splits)
  from asm obtain delaunay where
    del: "d3_Delaunay_from lib (addBorderPoints points0 (real (sc_width sc)) (real (sc_height sc))) = Inr delaunay"
    by (auto simp: assemble_def Let_def split: sum.splits)
  obtain ts m c where tl: "triangle_loop lib (sc_imageData sc) (st_colorSpace settings) (sc_width sc) (sc_height sc)
       (trianglePolygons delaunay) 0 ([], [], 1) = (ts, m, c)"
    by (metis prod_cases3)
  from asm del tl have
    "lp_triangles output = (if st_withNeighbors settings then map (resolve_neighbors delaunay m) ts else ts)"
    "oi_width (lp_image output) = sc_width sc" "oi_height (lp_image output) = sc_height sc"
    by (auto simp: assemble_def Let_def)
  with sc sp del tl show ?thesis by blast
qed

lemma generate_ids:
  assumes "generateLowPolyData cv lib img sourceFileName settings = Some (Inr output)"
  shows "map tr_id (lp_triangles output) = [1..int (length (lp_triangles output))]"
proof -
  from generate_resolved[OF assms] obtain sc :: scaled and points0 :: "point list" and delaunay :: Delaunay and ts m c where
    tl: "triangle_loop lib (sc_imageData sc) (st_colorSpace settings) (sc_width sc) (sc_height sc)
       (trianglePolygons delaunay) 0 ([], [], 1) = (ts, m, c)"
    and out: "lp_triangles output = (if st_withNeighbors settings then map (resolve_neighbors delaunay m) ts else ts)"
    by blast
  define k where "k = length (filter (survives (sc_width sc) (sc_height sc)) (trianglePolygons delaunay))"
  from triangle_loop_inv[OF tl] have i: "map tr_id ts = [1..1 + int k - 1]"
    by (simp add: k_def)
  then have "length (map tr_id ts) = k" by simp
  then have len: "length ts = k" by simp
  have "map tr_id (lp_triangles output) = map tr_id ts" "length (lp_triangles output) = length ts"
    using out by (simp_all add: comp_def)
  then show ?thesis using i len by simp
qed

subsection \<open>The barycentric test in the runs\<close>

lemma square_detT:
  "detT_of ((1, 0), (2, 1), (1, 2)) = 2"
  "detT_of ((1, 0), (1, 2), (0, 1)) = 2"
  "detT_of ((0, 0), (2, 0), (0, 2)) = 4"
  "detT_of ((2, 0), (2, 2), (0, 2)) = 4"
  unfolding detT_of_def prod.case fst_conv snd_conv fl_ops by (simp_all add: fl_quarters)

lemma square_inside:
  "inside_triangle ((1, 0), (2, 1), (1, 2)) 2 1 0"
  "inside_triangle ((1, 0), (2, 1), (1, 2)) 2 1 1"
  "\<not> inside_triangle ((1, 0), (1, 2), (0, 1)) 2 0 0"
  "inside_triangle ((1, 0), (1, 2), (0, 1)) 2 0 1"
  unfolding inside_triangle_def prod.case fst_conv snd_conv fl_ops by (simp_all add: fl_quarters)

lemma corner_inside:
  "inside_triangle ((0, 0), (2, 0), (0, 2)) 4 0 0"
  "inside_triangle ((0, 0), (2, 0), (0, 2)) 4 1 0"
  "inside_triangle ((0, 0), (2, 0), (0, 2)) 4 0 1"
  "inside_triangle ((0, 0), (2, 0), (0, 2)) 4 1 1"
  "\<not> inside_triangle ((2, 0), (2, 2), (0, 2)) 4 0 0"
  "\<not> inside_triangle ((2, 0), (2, 2), (0, 2)) 4 1 0"
  "\<not> inside_triangle ((2, 0), (2, 2), (0, 2)) 4 0 1"
  "inside_triangle ((2, 0), (2, 2), (0, 2)) 4 1 1"
  unfolding inside_triangle_def prod.case fst_conv snd_conv fl_ops by (simp_all add: fl_quarters)

text \<open>
  A pixel on an edge of a triangle whose weights are not numbers of the format: the weight
  \<open>lambda3\<close> of the pixel \<open>(0, 1)\<close> on the edge from \<open>(0, 0)\<close> to \<open>(0, 5)\<close> is computed as
  \<open>1 - 0.8 - 0.2\<close>, which is negative in the arithmetic of doubles.
\<close>

lemma edge_pixel_outside:
  "detT_of ((0, 0), (0, 5), (1, 0)) = - 5 \<and> \<not> inside_triangle ((0, 0), (0, 5), (1, 0)) (- 5) 0 1"
proof -
  have d: "detT_of ((0, 0), (0, 5), (1, 0)) = - 5"
    unfolding detT_of_def prod.case fst_conv snd_conv fl_ops by (simp add: fl_quarters)
  have l1: "fl (4 / 5) = 3602879701896397 / 4503599627370496"
    by (simp add: fl_def ulp_def binade_down.simps binade_up.simps round_even_def Let_def)
  have l2: "fl (1 / 5) = 3602879701896397 / 18014398509481984"
    by (simp add: fl_def ulp_def binade_down.simps binade_up.simps round_even_def Let_def)
  have l3: "fl (900719925474099 / 4503599627370496) = 900719925474099 / 4503599627370496"
    by (simp add: fl_def ulp_def binade_down.simps binade_up.simps round_even_def Let_def)
  have l4: "fl (- (1 / 18014398509481984)) = - (1 / 18014398509481984)"
    using fl_dyadic[of "- 1" 54] by simp
  have "\<not> inside_triangle ((0, 0), (0, 5), (1, 0)) (- 5) 0 1"
    unfolding inside_triangle_def prod.case fst_conv snd_conv fl_ops
    by (simp add: fl_quarters l1 l2 l3 l4)
  with d show ?thesis by simp
qed

subsection \<open>Two runs on an image of 2 by 2 pixels\<close>

lemma square_scaled:
  "getScaledImageData uniform_canvas \<lparr>image_width = 2, image_height = 2\<rparr> 1024
     = Inr \<lparr>sc_width = 2, sc_height = 2, sc_imageData = square_imageData\<rparr>"
  by (simp add: getScaledImageData_def scaledSize_def getImageData_def uniform_canvas_def
        square_imageData_def square_data_def numeral_eq_Suc)

lemma square_edgeMap: "createEdgeMap square_imageData = [0, 0, 0, 0]"
proof -
  have d: "id_width square_imageData = 2" "id_height square_imageData = 2"
    by (simp_all add: square_imageData_def)
  have s: "sobel_y_loop gs 2 2 1 st = st" for gs st
    by (subst sobel_y_loop.simps) simp
  show ?thesis
    unfolding createEdgeMap_def Let_def d s by (simp add: numeral_eq_Suc)
qed

lemma createPRNG_0: "createPRNG 0 = (to_unit 0, 0)"
  by (simp add: createPRNG_def)

lemma val_unit_0: "val (to_unit 0) = 0"
  by (simp add: val_to_unit)

lemma square_sampled: "sampleEdgeAware createPRNG 0 2 2 1 [0, 0, 0, 0] (1 / 2) = [(0, 0)]"
  unfolding sampleEdgeAware_def
  apply (subst sampleEdgeAware_loop.simps)
  apply (simp add: createPRNG_0 val_unit_0 rd_def Let_def)
  apply (subst sampleEdgeAware_loop.simps)
  apply simp
  done

lemma square_border:
  "addBorderPoints [(0, 0)] 2 2 = [(0, 0), (0, 0), (2, 0), (0, 2), (2, 2), (1, 0), (1, 2), (0, 1), (2, 1)]"
proof -
  have n: "real (length ([(0::real, 0::real)] @ [(0, 0), (2, 0), (0, 2), (2, 2)])) = 5"
    by simp
  have "addBorderPoints [(0, 0)] 2 2 =
     addBorderPoints_loop 1 2 2 2 [(0, 0), (0, 0), (2, 0), (0, 2), (2, 2)]"
    unfolding addBorderPoints_def Let_def n ceiling_sqrt5_half by simp
  also have "\<dots> = [(0, 0), (0, 0), (2, 0), (0, 2), (2, 2), (1, 0), (1, 2), (0, 1), (2, 1)]"
    by (simp add: addBorderPoints_loop.simps[of 1] addBorderPoints_loop.simps[of 2] borderStep_def)
  finally show ?thesis .
qed

lemma square_colour:
  "getAverageColor lib ((1, 0), (2, 1), (1, 2)) square_imageData RGB = (Some 10, Some 20, Some 30)"
  "getAverageColor lib ((1, 0), (1, 2), (0, 1)) square_imageData RGB = (Some 10, Some 20, Some 30)"
  "getAverageColor lib ((0, 0), (2, 0), (0, 2)) square_imageData RGB = (Some 10, Some 20, Some 30)"
  "getAverageColor lib ((2, 0), (2, 2), (0, 2)) square_imageData RGB = (Some 10, Some 20, Some 30)"
  by (simp_all add: getAverageColor_def bounding_box_def colour_sums_def square_detT upto_rec1
        pixel_step_def square_inside corner_inside add_pixel_def square_imageData_def square_data_def
        rd_def byte_number_def plus_nan_def round_nan_def Math_round_def)

lemma square_loop:
  "triangle_loop square_d3 square_imageData RGB 2 2 square_triangles 0 ([], [], 1) =
     ([\<lparr>tr_id = 1, tr_vertices = ((1, 0), (2, 1), (1, 2)), tr_centroid = (4 / 3, 1), tr_area_px = 1,
         tr_avg_color = (Some 10, Some 20, Some 30), tr_neighbors = []\<rparr>,
        \<lparr>tr_id = 2, tr_vertices = ((1, 0), (1, 2), (0, 1)), tr_centroid = (2 / 3, 1), tr_area_px = 1,
         tr_avg_color = (Some 10, Some 20, Some 30), tr_neighbors = []\<rparr>],
      [(4, 1), (5, 2)], 3)"
  by (simp add: square_triangles_def outside_canvas_def getArea_def getCentroid_def Let_def
        square_colour)

lemma square_generate:
  "generateLowPolyData uniform_canvas square_d3 \<lparr>image_width = 2, image_height = 2\<rparr> ''input.png''
     square_settings = Some (Inr square_output)"
proof -
  have sp: "sample_points square_settings 2 2 square_imageData = Some (Inr [(0, 0)])"
    by (simp add: sample_points_def square_settings_def square_edgeMap square_sampled)
  have del: "d3_Delaunay_from square_d3 (addBorderPoints [(0, 0)] (real 2) (real 2))
      = Inr \<lparr>trianglePolygons = square_triangles, neighbors = square_neighbors\<rparr>"
    by (simp add: square_border square_d3_def)
  have nb: "map (resolve_neighbors \<lparr>trianglePolygons = square_triangles, neighbors = square_neighbors\<rparr>
                [(4, 1), (5, 2)])
       [\<lparr>tr_id = 1, tr_vertices = ((1, 0), (2, 1), (1, 2)), tr_centroid = (4 / 3, 1), tr_area_px = 1,
         tr_avg_color = (Some 10, Some 20, Some 30), tr_neighbors = []\<rparr>,
        \<lparr>tr_id = 2, tr_vertices = ((1, 0), (1, 2), (0, 1)), tr_centroid = (2 / 3, 1), tr_area_px = 1,
         tr_avg_color = (Some 10, Some 20, Some 30), tr_neighbors = []\<rparr>]
     = lp_triangles square_output"
    by (simp add: resolve_neighbors_def square_neighbors_def square_output_def List.map_filter_def)
  have "assemble square_d3 ''input.png'' square_settings 2 2 square_imageData [(0, 0)] = Inr square_output"
    unfolding assemble_def Let_def del
    by (simp add: square_settings_def square_loop nb[unfolded square_output_def, simplified] square_output_def)
  then show ?thesis
    by (simp add: generateLowPolyData_def square_settings_def[THEN arg_cong, of st_maxSize] square_scaled sp)
qed

lemma sampleEdgeAware_nonpositive:
  "numPoints \<le> 0 \<Longrightarrow> sampleEdgeAware random g width height numPoints edgeMap edgeWeight = []"
  unfolding sampleEdgeAware_def by (subst sampleEdgeAware_loop.simps) simp

lemma corner_border: "addBorderPoints [] 2 2 = [(0, 0), (2, 0), (0, 2), (2, 2)]"
proof -
  have n: "real (length ([] @ [(0::real, 0::real), (2, 0), (0, 2), (2, 2)])) = 4"
    by simp
  have c: "\<lceil>sqrt 4 / 2\<rceil> = (1::int)" by simp
  show ?thesis
    unfolding addBorderPoints_def Let_def n c
    by (simp add: addBorderPoints_loop.simps[of 1])
qed

lemma corner_loop:
  "triangle_loop corner_d3 square_imageData RGB 2 2 corner_triangles 0 ([], [], 1) =
     ([\<lparr>tr_id = 1, tr_vertices = ((0, 0), (2, 0), (0, 2)), tr_centroid = (2 / 3, 2 / 3), tr_area_px = 2,
         tr_avg_color = (Some 10, Some 20, Some 30), tr_neighbors = []\<rparr>,
        \<lparr>tr_id = 2, tr_vertices = ((2, 0), (2, 2), (0, 2)), tr_centroid = (4 / 3, 4 / 3), tr_area_px = 2,
         tr_avg_color = (Some 10, Some 20, Some 30), tr_neighbors = []\<rparr>],
      [(0, 1), (1, 2)], 3)"
  by (simp add: corner_triangles_def outside_canvas_def getArea_def getCentroid_def Let_def
        square_colour)

lemma corner_assemble:
  "assemble corner_d3 ''input.png'' (square_settings\<lparr>st_points := 0\<rparr>) 2 2 square_imageData [] = Inr corner_output"
proof -
  have del: "d3_Delaunay_from corner_d3 (addBorderPoints [] (real 2) (real 2))
      = Inr \<lparr>trianglePolygons = corner_triangles, neighbors = corner_neighbors\<rparr>"
    by (simp add: corner_border corner_d3_def)
  show ?thesis
    unfolding assemble_def Let_def del
    by (simp add: square_settings_def corner_loop corner_output_def resolve_neighbors_def
          corner_neighbors_def List.map_filter_def)
qed

subsection \<open>A target point count of zero or less\<close>

text \<open>
  Claim C1 as the specification states it: for a target point count of zero the generation
  fails with \<open>InvalidInput\<close> and produces no result. The source has no check of its
  parameters. With the count 0 and the edge-aware sampler, the image of 2 by 2 pixels is
  read, no point is sampled, and the promise is resolved with the two triangles over the
  four corners.
\<close>

theorem generate_zero_points_counterexample:
  "generateLowPolyData uniform_canvas corner_d3 \<lparr>image_width = 2, image_height = 2\<rparr> ''input.png''
     (square_settings\<lparr>st_points := 0\<rparr>) = Some (Inr corner_output)"
proof -
  have "generateLowPolyData uniform_canvas corner_d3 \<lparr>image_width = 2, image_height = 2\<rparr> ''input.png''
     (square_settings\<lparr>st_points := 0\<rparr>) =
     Some (assemble corner_d3 ''input.png'' (square_settings\<lparr>st_points := 0\<rparr>) 2 2 square_imageData [])"
    by (simp add: generateLowPolyData_def square_settings_def square_scaled sample_points_def
          sampleEdgeAware_nonpositive)
  then show ?thesis by (simp only: corner_assemble)
qed

text \<open>
  Claim C1, amended. For a target point count of zero or less and the grid or the edge-aware
  sampler, the generation reads the image first; if that fails, the promise is rejected with
  the error of the canvas; otherwise no point is sampled and the outcome is that of the
  steps after the sampling on the empty point set: the border points are triangulated and
  the result is built from them. No check of the parameters takes place.
\<close>

theorem generate_nonpositive_points:
  assumes "st_points settings \<le> 0" and "st_sampler settings \<noteq> POISSON"
  shows "generateLowPolyData cv lib img sourceFileName settings =
     (case getScaledImageData cv img (st_maxSize settings) of
        Inl e \<Rightarrow> Some (Inl e)
      | Inr sc \<Rightarrow> Some (assemble lib sourceFileName settings (sc_width sc) (sc_height sc) (sc_imageData sc) []))"
proof (cases "getScaledImageData cv img (st_maxSize settings)")
  case (Inl e)
  then show ?thesis by (simp add: generateLowPolyData_def)
next
  case (Inr sc)
  from getScaledImageData_positive[OF Inr] have pos: "0 < sc_width sc" "0 < sc_height sc" by simp_all
  have "sample_points settings (sc_width sc) (sc_height sc) (sc_imageData sc) = Some (Inr [])"
  proof (cases "st_sampler settings")
    case GRID
    then show ?thesis using assms(1) pos by (simp add: sample_points_def sampleGrid_def)
  next
    case POISSON
    with assms(2) show ?thesis by simp
  next
    case EDGE_AWARE
    then show ?thesis using assms(1) by (simp add: sample_points_def sampleEdgeAware_nonpositive)
  qed
  with Inr show ?thesis by (simp add: generateLowPolyData_def)
qed

text \<open>The amended claim for the grid sampler and the target point count \<open>-3\<close>.\<close>

theorem generate_nonpositive_points_witness:
  "st_points (square_settings\<lparr>st_points := - 3, st_sampler := GRID\<rparr>) \<le> 0 \<and>
   st_sampler (square_settings\<lparr>st_points := - 3, st_sampler := GRID\<rparr>) \<noteq> POISSON \<and>
   generateLowPolyData uniform_canvas corner_d3 \<lparr>image_width = 2, image_height = 2\<rparr> ''input.png''
     (square_settings\<lparr>st_points := - 3, st_sampler := GRID\<rparr>) =
   Some (assemble corner_d3 ''input.png'' (square_settings\<lparr>st_points := - 3, st_sampler := GRID\<rparr>)
           2 2 square_imageData [])"
proof -
  have h1: "st_points (square_settings\<lparr>st_points := - 3, st_sampler := GRID\<rparr>) \<le> 0" by simp
  have h2: "st_sampler (square_settings\<lparr>st_points := - 3, st_sampler := GRID\<rparr>) \<noteq> POISSON" by simp
  have m: "st_maxSize (square_settings\<lparr>st_points := - 3, st_sampler := GRID\<rparr>) = 1024"
    by (simp add: square_settings_def)
  show ?thesis
    using h1 h2
      generate_nonpositive_points[OF h1 h2, of uniform_canvas corner_d3
        "\<lparr>image_width = 2, image_height = 2\<rparr>" "''input.png''"]
    by (simp add: m square_scaled)
qed

subsection \<open>Identifiers\<close>



subsection \<open>Bounds\<close>

text \<open>
  Claim C5. In every result, each of the three vertices of each triangle has an \<open>x\<close> between
  0 and the width and a \<open>y\<close> between 0 and the height of the result's image, bounds
  included; these are the dimensions after scaling.
\<close>

theorem generate_vertices_in_bounds:
  assumes "generateLowPolyData cv lib img sourceFileName settings = Some (Inr output)"
  shows "\<forall>t \<in> set (lp_triangles output). \<forall>v \<in> {fst (tr_vertices t), fst (snd (tr_vertices t)), snd (snd (tr_vertices t))}.
     0 \<le> fst v \<and> fst v \<le> real (oi_width (lp_image output)) \<and>
     0 \<le> snd v \<and> snd v \<le> real (oi_height (lp_image output))"
proof -
  from generate_resolved[OF assms] obtain sc :: scaled and points0 :: "point list" and delaunay :: Delaunay and ts m c where
    tl: "triangle_loop lib (sc_imageData sc) (st_colorSpace settings) (sc_width sc) (sc_height sc)
       (trianglePolygons delaunay) 0 ([], [], 1) = (ts, m, c)"
    and out: "lp_triangles output = (if st_withNeighbors settings then map (resolve_neighbors delaunay m) ts else ts)"
    and dim: "oi_width (lp_image output) = sc_width sc" "oi_height (lp_image output) = sc_height sc"
    by blast
  from triangle_loop_inv[OF tl] have
    v: "map tr_vertices ts = filter (survives (sc_width sc) (sc_height sc)) (trianglePolygons delaunay)"
    by simp
  have vs: "map tr_vertices (lp_triangles output) = map tr_vertices ts"
    using out by (simp add: comp_def)
  show ?thesis
  proof (intro ballI)
    fix t v
    assume t: "t \<in> set (lp_triangles output)"
      and vin: "v \<in> {fst (tr_vertices t), fst (snd (tr_vertices t)), snd (snd (tr_vertices t))}"
    from t have "tr_vertices t \<in> set (map tr_vertices (lp_triangles output))" by simp
    then have "survives (sc_width sc) (sc_height sc) (tr_vertices t)"
      unfolding vs v by simp
    then have "\<not> outside_canvas (sc_width sc) (sc_height sc) (tr_vertices t)"
      by (simp add: survives_def)
    with vin show "0 \<le> fst v \<and> fst v \<le> real (oi_width (lp_image output)) \<and>
        0 \<le> snd v \<and> snd v \<le> real (oi_height (lp_image output))"
      unfolding dim outside_canvas_def
      by (cases "tr_vertices t") (auto simp: not_less)
  qed
qed

text \<open>The claim at the run \<open>square_generate\<close>.\<close>

theorem generate_vertices_in_bounds_witness:
  "generateLowPolyData uniform_canvas square_d3 \<lparr>image_width = 2, image_height = 2\<rparr> ''input.png''
     square_settings = Some (Inr square_output) \<and>
   list_all (\<lambda>t. list_all (\<lambda>v. 0 \<le> fst v \<and> fst v \<le> real (oi_width (lp_image square_output)) \<and>
                            0 \<le> snd v \<and> snd v \<le> real (oi_height (lp_image square_output)))
               [fst (tr_vertices t), fst (snd (tr_vertices t)), snd (snd (tr_vertices t))])
     (lp_triangles square_output)"
  using generate_vertices_in_bounds[OF square_generate] square_generate
  by (simp add: square_output_def)

subsection \<open>Neighbours\<close>

text \<open>
  Claim C7. In every result, each identifier in the neighbour list of a triangle is the
  identifier of a triangle of the same result, a number between 1 and the number of
  triangles. This holds whatever \<^verbatim>\<open>delaunay.neighbors\<close> yields, and also when the neighbours
  are not requested and every list is empty.
\<close>

theorem generate_neighbors_closed:
  assumes "generateLowPolyData cv lib img sourceFileName settings = Some (Inr output)"
  shows "\<forall>t \<in> set (lp_triangles output). \<forall>n \<in> set (tr_neighbors t).
     n \<in> tr_id ` set (lp_triangles output) \<and> 1 \<le> n \<and> n \<le> int (length (lp_triangles output))"
proof -
  from generate_resolved[OF assms] obtain sc :: scaled and points0 :: "point list" and delaunay :: Delaunay and ts m c where
    tl: "triangle_loop lib (sc_imageData sc) (st_colorSpace settings) (sc_width sc) (sc_height sc)
       (trianglePolygons delaunay) 0 ([], [], 1) = (ts, m, c)"
    and out: "lp_triangles output = (if st_withNeighbors settings then map (resolve_neighbors delaunay m) ts else ts)"
    by blast
  from triangle_loop_inv[OF tl] have
    i: "map tr_id ts = map snd m" and nb: "map tr_neighbors ts = replicate (length ts) []"
    by (simp_all, metis length_map)
  have ids: "map tr_id (lp_triangles output) = map tr_id ts"
    using out by (simp add: comp_def)
  then have idset: "tr_id ` set (lp_triangles output) = snd ` set m"
    using i by (metis set_map)
  have empty: "tr_neighbors t = []" if "t \<in> set ts" for t
  proof -
    from that have "tr_neighbors t \<in> set (map tr_neighbors ts)" by simp
    then show ?thesis unfolding nb by simp
  qed
  have dense: "map tr_id (lp_triangles output) = [1..int (length (lp_triangles output))]"
    by (rule generate_ids[OF assms])
  show ?thesis
  proof (intro ballI)
    fix t n
    assume t: "t \<in> set (lp_triangles output)" and n: "n \<in> set (tr_neighbors t)"
    have "n \<in> snd ` set m"
    proof (cases "st_withNeighbors settings")
      case True
      with t out obtain t0 where t0: "t0 \<in> set ts" "t = resolve_neighbors delaunay m t0" by auto
      with n resolve_neighbors_subset[of delaunay m t0] empty[OF t0(1)] show ?thesis by auto
    next
      case False
      with t out have "t \<in> set ts" by simp
      with n empty show ?thesis by simp
    qed
    then have mem: "n \<in> tr_id ` set (lp_triangles output)" by (simp only: idset)
    then have "n \<in> set (map tr_id (lp_triangles output))" by simp
    then have "n \<in> set [1..int (length (lp_triangles output))]" by (simp only: dense)
    with mem show "n \<in> tr_id ` set (lp_triangles output) \<and> 1 \<le> n \<and> n \<le> int (length (lp_triangles output))"
      by simp
  qed
qed

text \<open>
  The claim at the run \<open>square_generate\<close>, where the neighbours are requested: the indices
  of discarded triangles are dropped and the lists are \<open>[2]\<close> and \<open>[1]\<close>.
\<close>

theorem generate_neighbors_closed_witness:
  "generateLowPolyData uniform_canvas square_d3 \<lparr>image_width = 2, image_height = 2\<rparr> ''input.png''
     square_settings = Some (Inr square_output) \<and>
   st_withNeighbors square_settings \<and>
   map tr_neighbors (lp_triangles square_output) = [[2], [1]] \<and>
   list_all (\<lambda>t. list_all (\<lambda>n. n \<in> tr_id ` set (lp_triangles square_output) \<and>
                            1 \<le> n \<and> n \<le> int (length (lp_triangles square_output)))
               (tr_neighbors t))
     (lp_triangles square_output)"
  using generate_neighbors_closed[OF square_generate] square_generate
  by (simp add: square_output_def square_settings_def)

section \<open>Properties of the colour average\<close>

subsection \<open>The average of red and blue in the colour space LAB\<close>
































subsection \<open>The average colour of every triangle\<close>








lemma unat_byte_le: "unat (b :: byte) \<le> 255"
proof -
  have "unat b < 2 ^ LENGTH(8)" by (rule unsigned_less)
  then show ?thesis by simp
qed


lemma byte_int_range:
  assumes "0 \<le> i" and "i < int (length data)"
  shows "\<exists>v. byte_int (rd data i) = Some v \<and> byte_range v"
proof -
  have "int (unat (data ! nat i)) \<le> int 255"
    using unat_byte_le[of "data ! nat i"] by (simp only: of_nat_le_iff)
  then have le: "int (unat (data ! nat i)) \<le> 255" by (simp only: of_nat_numeral)
  have ge: "0 \<le> int (unat (data ! nat i))" by (rule of_nat_0_le_iff)
  have "rd data i = Some (data ! nat i)" using assms by (simp add: rd_def)
  then have "byte_int (rd data i) = Some (int (unat (data ! nat i)))"
    by (simp only: byte_int_def option.map)
  then show ?thesis using le ge unfolding byte_range_def by blast
qed














section \<open>Properties of the Poisson-disc sampler\<close>

lemma strip_r_bounds: "10 < strip_r \<and> strip_r < 16"
proof -
  have p: "2 \<le> pi" "pi < 4" using pi_ge_two pi_less_4 by simp_all
  have "450 / 4 < 450 / pi" using p by (simp add: field_simps)
  then have lo: "(100::real) < 450 / pi" by simp
  have "450 / pi \<le> 450 / 2" using p by (simp add: field_simps)
  then have hi: "450 / pi < (256::real)" by simp
  have e: "strip_r = sqrt (450 / pi)"
  proof -
    have "strip_r = sqrt (200 / pi) * sqrt (9 / 4)"
      by (simp add: strip_r_def poisson_r_def real_sqrt_divide)
    also have "\<dots> = sqrt (200 / pi * (9 / 4))" by (simp only: real_sqrt_mult)
    finally show ?thesis by simp
  qed
  have "sqrt 100 < sqrt (450 / pi)" using lo by (simp only: real_sqrt_less_iff)
  moreover have "sqrt (450 / pi) < sqrt 256" using hi by (simp only: real_sqrt_less_iff)
  moreover have "sqrt 100 = 10" "sqrt 256 = 16" by (simp_all add: real_sqrt_unique)
  ultimately show ?thesis unfolding e by simp
qed

lemma strip_r_pos: "0 < strip_r"
  using strip_r_bounds by simp

lemma sqrt2_bounds: "1 < sqrt 2 \<and> sqrt 2 < 2"
proof -
  have "(2::real) < 4" by simp
  then have "sqrt 2 < sqrt 4" by (simp only: real_sqrt_less_iff)
  then show ?thesis by simp
qed

lemma strip_w_pos: "0 < poisson_w strip_r"
  unfolding poisson_w_def using strip_r_pos by simp

lemma strip_rows: "poisson_rows strip_r 2 = 0"
proof -
  have "2 * sqrt 2 < strip_r" using sqrt2_bounds strip_r_bounds by simp
  then have "real 2 / poisson_w strip_r < 1"
    unfolding poisson_w_def using strip_r_pos by (simp add: field_simps)
  moreover have "0 \<le> real 2 / poisson_w strip_r" using strip_w_pos by simp
  ultimately show ?thesis unfolding poisson_rows_def by (simp add: floor_eq_iff)
qed

lemma poisson_ok_no_rows: "poisson_ok grid r cols 0 row col px py"
  by (simp add: poisson_ok_def Let_def)

lemma strip_column:
  "\<lfloor>strip_r * (1 + v) / poisson_w strip_r\<rfloor> = \<lfloor>(1 + v) * sqrt 2\<rfloor>"
proof -
  have "strip_r * (1 + v) / poisson_w strip_r = (1 + v) * sqrt 2"
    unfolding poisson_w_def using strip_r_pos by simp
  then show ?thesis by simp
qed

lemma strip_source_val:
  "strip_source n = (to_unit (if n < 7 then 0 else if n = 7 then 9 / 10 else 1 / 4), n + 1)"
  "val (to_unit 0) = 0" "val (to_unit (9 / 10)) = 9 / 10" "val (to_unit (1 / 4)) = 1 / 4"
  by (simp_all add: strip_source_def val_to_unit)

text \<open>A candidate at the angle 0 from the point \<open>(0, 0)\<close> is accepted.\<close>

lemma strip_try_accept:
  assumes g: "strip_source g = (to_unit 0, g + 1)"
    and g1: "strip_source (g + 1) = (to_unit v, g + 2)" and v: "0 \<le> v" "v < 1"
  shows "samplePoisson_try strip_source strip_r 100 2 grid (0, 0) 0 g = (Some (strip_r * (1 + v), 0), g + 2)"
proof -
  have vv: "val (to_unit v) = v" using v by (rule val_to_unit)
  have b: "\<not> (strip_r * (1 + v) < 0 \<or> strip_r * (1 + v) \<ge> real 100 \<or> (0::real) < 0 \<or> (0::real) \<ge> real 2)"
  proof -
    have "0 \<le> strip_r * (1 + v)" using strip_r_pos v by simp
    moreover have "strip_r * (1 + v) < 16 * 2"
      using strip_r_bounds v strip_r_pos by (intro mult_strict_mono) simp_all
    ultimately show ?thesis by simp
  qed
  show ?thesis
    apply (subst samplePoisson_try.simps)
    apply (simp only: g g1 prod.case Let_def vv strip_source_val(2) fst_conv snd_conv)
    apply (simp add: b[simplified] strip_rows poisson_ok_no_rows)
    done
qed

text \<open>Candidates at the angle of a quarter turn from a point on the lower border are rejected.\<close>

lemma strip_try_reject:
  assumes "8 \<le> g" and "snd pos = 0"
  shows "n = nat (30 - j) \<Longrightarrow> j \<le> 30 \<Longrightarrow>
     samplePoisson_try strip_source strip_r 100 2 grid pos j g = (None, g + 2 * n)"
using assms(1)
proof (induction n arbitrary: j g)
  case 0
  then have "\<not> j < 30" by simp
  then show ?case by (subst samplePoisson_try.simps) simp
next
  case (Suc n)
  then have j: "j < 30" by simp
  have s1: "strip_source g = (to_unit (1 / 4), g + 1)" using Suc.prems by (simp add: strip_source_def)
  have s2: "strip_source (g + 1) = (to_unit (1 / 4), g + 2)" using Suc.prems by (simp add: strip_source_def)
  have py: "snd pos + strip_r * (1 + 1 / 4) * sin (2 * pi * (1 / 4)) \<ge> real 2"
    using strip_r_bounds assms(2) by simp
  have step: "samplePoisson_try strip_source strip_r 100 2 grid pos j g =
      samplePoisson_try strip_source strip_r 100 2 grid pos (j + 1) (g + 2)"
    apply (subst samplePoisson_try.simps)
    apply (simp only: s1 s2 prod.case Let_def strip_source_val(4) j if_True)
    using py apply simp
    done
  have "samplePoisson_try strip_source strip_r 100 2 grid pos (j + 1) (g + 2) = (None, g + 2 + 2 * n)"
    using Suc.prems by (intro Suc.IH) simp_all
  then show ?case by (simp add: step)
qed

lemma splice1_set: "set (splice1 xs i) \<subseteq> set xs"
  unfolding splice1_def by (auto dest: in_set_takeD in_set_dropD)

lemma splice1_length:
  assumes "0 \<le> i" and "i < int (length xs)"
  shows "length (splice1 xs i) = length xs - 1"
  using assms unfolding splice1_def by (simp add: min_def)

text \<open>Once every call yields one quarter, the points on the lower border leave the active list.\<close>

lemma strip_drain:
  "n = length active \<Longrightarrow> 8 \<le> g \<Longrightarrow> \<forall>p \<in> set active. snd p = 0 \<Longrightarrow>
     samplePoisson_loop strip_source strip_r 100 2 g grid active = Some (Inr grid)"
proof (induction n arbitrary: active g)
  case 0
  then show ?case by (subst samplePoisson_loop.simps) simp
next
  case (Suc n)
  then have ne: "active \<noteq> []" by auto
  define randIndex where "randIndex = \<lfloor>(1 / 4) * real (length active)\<rfloor>"
  have s: "strip_source g = (to_unit (1 / 4), g + 1)" using Suc.prems by (simp add: strip_source_def)
  have ri: "0 \<le> randIndex" "randIndex < int (length active)"
  proof -
    show "0 \<le> randIndex" unfolding randIndex_def by simp
    have "(1 / 4) * real (length active) < real (length active)" using ne by simp
    then have "(1 / 4) * real (length active) < of_int (int (length active))" by simp
    then show "randIndex < int (length active)" unfolding randIndex_def by (simp only: floor_less_iff)
  qed
  define pos where "pos = active ! nat randIndex"
  have rdp: "rd active randIndex = Some pos" using ri by (simp add: rd_def pos_def)
  have "pos \<in> set active" unfolding pos_def using ri by simp
  then have p0: "snd pos = 0" using Suc.prems by simp
  have t: "samplePoisson_try strip_source strip_r 100 2 grid pos 0 (g + 1) = (None, g + 1 + 2 * 30)"
    using Suc.prems p0 by (intro strip_try_reject) simp_all
  have step: "samplePoisson_loop strip_source strip_r 100 2 g grid active =
      samplePoisson_loop strip_source strip_r 100 2 (g + 1 + 2 * 30) grid (splice1 active randIndex)"
    apply (subst samplePoisson_loop.simps)
    apply (simp only: ne if_False s prod.case Let_def strip_source_val(4) randIndex_def[symmetric] rdp
             option.case t)
    done
  have "samplePoisson_loop strip_source strip_r 100 2 (g + 1 + 2 * 30) grid (splice1 active randIndex) = Some (Inr grid)"
  proof (rule Suc.IH)
    show "n = length (splice1 active randIndex)"
      using splice1_length[OF ri] Suc.prems(1) by simp
    show "8 \<le> g + 1 + 2 * 30" using Suc.prems by simp
    show "\<forall>p \<in> set (splice1 active randIndex). snd p = 0"
      using Suc.prems(3) splice1_set[of active randIndex] by blast
  qed
  then show ?case by (simp only: step)
qed

lemma floor_sqrt2: "\<lfloor>(1 + 0) * sqrt 2\<rfloor> = 1"
  using sqrt2_bounds by (simp add: floor_eq_iff)

lemma floor_19_sqrt2: "\<lfloor>(1 + 9 / 10) * sqrt 2\<rfloor> = 2"
proof -
  have "(400 / 361 :: real) < 2" "(2 :: real) < 900 / 361" by simp_all
  then have "sqrt (400 / 361) < sqrt 2" "sqrt 2 < sqrt (900 / 361)"
    by (simp_all only: real_sqrt_less_iff)
  moreover have "sqrt (400 / 361) = 20 / 19" by (simp add: real_sqrt_divide real_sqrt_unique)
  moreover have "sqrt (900 / 361) = 30 / 19" by (simp add: real_sqrt_divide real_sqrt_unique)
  ultimately have "20 / 19 < sqrt 2" "sqrt 2 < 30 / 19" by simp_all
  then show ?thesis by (simp add: floor_eq_iff)
qed

text \<open>
  Claim C4 at a strip of 100 by 2 pixels, the target count 1 and the source \<open>strip_source\<close>.
  The cell size \<open>r / sqrt 2\<close> is larger than the height, so \<^verbatim>\<open>rows\<close>, a floor, is 0 and the
  test \<^verbatim>\<open>neighborRow < rows\<close> fails for every cell: no candidate is compared with any point.
  The sampler returns three points on the lower border, and the second and the third are
  nine tenths of \<open>r\<close> apart.
\<close>

theorem samplePoisson_strip:
  "samplePoisson strip_source 0 100 2 1 =
     Some (Inr [(0, 0), (poisson_r 100 2 1 * (1 + 0), 0), (poisson_r 100 2 1 * (1 + 9 / 10), 0)]) \<and>
   sqrt ((poisson_r 100 2 1 * (1 + 0) - poisson_r 100 2 1 * (1 + 9 / 10))\<^sup>2 + (0 - 0)\<^sup>2) < poisson_r 100 2 1"
proof -
  define A where "A = (strip_r * (1 + 0), 0::real)"
  define B where "B = (strip_r * (1 + 9 / 10), 0::real)"
  have src: "strip_source 0 = (to_unit 0, 1)" "strip_source 1 = (to_unit 0, 2)"
    "strip_source 2 = (to_unit 0, 3)" "strip_source 5 = (to_unit 0, 6)"
    by (simp_all add: strip_source_def)
  have tA: "samplePoisson_try strip_source strip_r 100 2 [Some (0, 0)] (0, 0) 0 3 = (Some A, 5)"
    using strip_try_accept[of 3 0 "[Some (0, 0)]"] by (simp add: strip_source_def A_def)
  have tB: "samplePoisson_try strip_source strip_r 100 2 [Some (0, 0), Some A] (0, 0) 0 6 = (Some B, 8)"
    using strip_try_accept[of 6 "9 / 10" "[Some (0, 0), Some A]"] by (simp add: strip_source_def B_def)
  have iA: "\<lfloor>snd A / poisson_w strip_r\<rfloor> * poisson_cols strip_r 100 + \<lfloor>fst A / poisson_w strip_r\<rfloor> = 1"
    unfolding A_def fst_conv snd_conv strip_column floor_sqrt2 by simp
  have iB: "\<lfloor>snd B / poisson_w strip_r\<rfloor> * poisson_cols strip_r 100 + \<lfloor>fst B / poisson_w strip_r\<rfloor> = 2"
    unfolding B_def fst_conv snd_conv strip_column floor_19_sqrt2 by simp
  have drain: "samplePoisson_loop strip_source strip_r 100 2 8 [Some (0, 0), Some A, Some B] [(0, 0), A, B]
      = Some (Inr [Some (0, 0), Some A, Some B])"
    by (rule strip_drain) (simp_all add: A_def B_def)
  have l2: "samplePoisson_loop strip_source strip_r 100 2 5 [Some (0, 0), Some A] [(0, 0), A]
      = Some (Inr [Some (0, 0), Some A, Some B])"
    apply (subst samplePoisson_loop.simps)
    apply (simp only: src prod.case Let_def strip_source_val(2))
    apply (simp add: rd_def tB iB grid_set_def drain)
    done
  have l1: "samplePoisson_loop strip_source strip_r 100 2 2 [Some (0, 0)] [(0, 0)]
      = Some (Inr [Some (0, 0), Some A, Some B])"
    apply (subst samplePoisson_loop.simps)
    apply (simp only: src prod.case Let_def strip_source_val(2))
    apply (simp add: rd_def tA iA grid_set_def l2)
    done
  have "samplePoisson strip_source 0 100 2 1 = Some (Inr [(0, 0), A, B])"
    unfolding samplePoisson_def
    apply (simp only: src prod.case Let_def strip_source_val(2) strip_r_def[symmetric])
    apply (simp add: grid_set_def l1 List.map_filter_def)
    done
  moreover have "sqrt ((strip_r * (1 + 0) - strip_r * (1 + 9 / 10))\<^sup>2 + (0 - 0)\<^sup>2) < strip_r"
  proof -
    have "strip_r * (1 + 0) - strip_r * (1 + 9 / 10) = - (9 / 10 * strip_r)" by simp
    then have "sqrt ((strip_r * (1 + 0) - strip_r * (1 + 9 / 10))\<^sup>2 + (0 - 0)\<^sup>2) = \<bar>9 / 10 * strip_r\<bar>"
      by (simp only: diff_self zero_power2 add_0_right power2_minus real_sqrt_abs)
    then show ?thesis using strip_r_pos by simp
  qed
  ultimately show ?thesis unfolding A_def B_def strip_r_def by simp
qed

end
